theory Spec2Isabelle
  imports Complex_Main
begin


section \<open>Math types shared by the components\<close>

text \<open>
  The engine's \<^verbatim>\<open>float\<close> is IEEE binary32. A finite value is the real number it denotes,
  and an arithmetic operation (addition, subtraction, multiplication, division, conversion
  of an integer) gives the exact result rounded to binary32: to the nearest value with a
  24-bit significand and an exponent no smaller than that of the subnormals, ties going to
  the even significand. Comparison, absolute value, maximum and floor are exact. Infinities,
  NaN and overflow beyond the largest finite value are outside the model.
\<close>

text \<open>Rounding to the nearest integer, ties to the even one.\<close>

definition roundHalfEven :: "real \<Rightarrow> int" where
  "roundHalfEven y =
     (let f = \<lfloor>y\<rfloor>
      in if y - of_int f < 1 / 2 then f
         else if 1 / 2 < y - of_int f then f + 1
         else if even f then f else f + 1)"

text \<open>
  The binade of a non-zero value is the exponent \<open>p\<close> with \<open>2^p \<le> |x| < 2^(p+1)\<close>; its
  quantum is the spacing of binary32 values there: \<open>2^(p-23)\<close>, and \<open>2^(-149)\<close> among the
  subnormals.
\<close>

definition binade :: "real \<Rightarrow> int" where
  "binade x = \<lfloor>log 2 \<bar>x\<bar>\<rfloor>"

definition quantum :: "real \<Rightarrow> real" where
  "quantum x = 2 powi (max (binade x - 23) (- 149))"

definition round32 :: "real \<Rightarrow> real" where
  "round32 x = (if x = 0 then 0 else of_int (roundHalfEven (x / quantum x)) * quantum x)"

definition float_add :: "real \<Rightarrow> real \<Rightarrow> real" where
  "float_add a b = round32 (a + b)"

definition float_sub :: "real \<Rightarrow> real \<Rightarrow> real" where
  "float_sub a b = round32 (a - b)"

definition float_mul :: "real \<Rightarrow> real \<Rightarrow> real" where
  "float_mul a b = round32 (a * b)"

definition float_div :: "real \<Rightarrow> real \<Rightarrow> real" where
  "float_div a b = round32 (a / b)"

text \<open>
  The classes \<^verbatim>\<open>Vector3\<close> and \<^verbatim>\<open>Matrix\<close> are declared outside the files at hand; a
  vector is its three components and the vector operations used below are the
  componentwise binary32 ones.
\<close>

datatype Vector3 = Vector3 (v_x: real) (v_y: real) (v_z: real)

datatype Vector4 = Vector4 (c_x: real) (c_y: real) (c_z: real) (c_w: real)

definition Vector3_add :: "Vector3 \<Rightarrow> Vector3 \<Rightarrow> Vector3" where
  "Vector3_add a b =
     Vector3 (float_add (v_x a) (v_x b)) (float_add (v_y a) (v_y b)) (float_add (v_z a) (v_z b))"

definition Vector3_sub :: "Vector3 \<Rightarrow> Vector3 \<Rightarrow> Vector3" where
  "Vector3_sub a b =
     Vector3 (float_sub (v_x a) (v_x b)) (float_sub (v_y a) (v_y b)) (float_sub (v_z a) (v_z b))"

definition Vector3_div :: "Vector3 \<Rightarrow> real \<Rightarrow> Vector3" where
  "Vector3_div a s = Vector3 (float_div (v_x a) s) (float_div (v_y a) s) (float_div (v_z a) s)"

definition Vector3_mul :: "Vector3 \<Rightarrow> real \<Rightarrow> Vector3" where
  "Vector3_mul a s = Vector3 (float_mul (v_x a) s) (float_mul (v_y a) s) (float_mul (v_z a) s)"

text \<open>\<^verbatim>\<open>Floor\<close>: the floor of a binary32 value is a binary32 value, so nothing is rounded.\<close>

definition Vector3_Floor :: "Vector3 \<Rightarrow> Vector3" where
  "Vector3_Floor a =
     Vector3 (of_int \<lfloor>v_x a\<rfloor>) (of_int \<lfloor>v_y a\<rfloor>) (of_int \<lfloor>v_z a\<rfloor>)"

text \<open>
  A matrix is kept as the call that built it: the default constructor, the identity,
  the two factory functions the light uses, or sixteen entries handed in from outside
  (a camera's matrices).
\<close>

datatype Matrix =
    Matrix_Default
  | Matrix_Identity
  | Matrix_Entries "real list"
  | CreateLookAtLH Vector3 Vector3 Vector3
  | CreateOrthoOffCenterLH real real real real real real

datatype error = NullDereference | IndexOutOfRange

section \<open>Light (shadow cascades)\<close>

text \<open>
  Modelled from the spec: \<^verbatim>\<open>Quaternion::FromEulerAngles\<close> and
  \<^verbatim>\<open>Quaternion::ToEulerAngles\<close> are not among the files at hand. The spec speaks of a
  rotation through the pitch that it "reads" in degrees, so a rotation is represented by
  the Euler angles it was built from, and reading the angles gives them back.
\<close>

datatype Quaternion = FromEulerAngles real real real

fun ToEulerAngles :: "Quaternion \<Rightarrow> Vector3" where
  "ToEulerAngles (FromEulerAngles p yw r) = Vector3 p yw r"

record Transform =
  t_position :: Vector3
  t_rotation :: Quaternion

datatype LightType = LightType_Directional | LightType_Point | LightType_Spot

record RHI_RenderTexture =
  rt_width :: nat
  rt_height :: nat

text \<open>A frustum remembers the arguments of its last \<^verbatim>\<open>Construct\<close> call, if any.\<close>

datatype Frustum = Frustum_New | Frustum_Constructed Matrix Matrix real

record CameraInfo =
  cam_position :: Vector3
  cam_farPlane :: real

text \<open>
  What a light reaches through its context: the shadow resolution of the global
  settings, the main camera's camera component (\<open>None\<close> when the world has no main
  camera actor or the actor has no camera component), and the two math helpers declared
  outside the files at hand (the forward vector of a rotation, a point times a matrix).
\<close>

record Context =
  Shadows_GetResolution :: nat
  GetMainCamera :: "CameraInfo option"
  GetForward :: "Quaternion \<Rightarrow> Vector3"
  transformPoint :: "Vector3 \<Rightarrow> Matrix \<Rightarrow> Vector3"

text \<open>
  The light's fields, its transform, and a count of the render textures it has asked
  the device to create (the only effect of \<^verbatim>\<open>ShadowMap_Create\<close> outside the light).
\<close>

record Light =
  m_lightType :: LightType
  m_castShadows :: bool
  m_range :: real
  m_intensity :: real
  m_angle :: real
  m_color :: Vector4
  m_bias :: real
  m_isDirty :: bool
  m_shadowMapSplits :: "real list"
  m_shadowMapCount :: nat
  m_shadowMapResolution :: nat
  m_shadowMaps :: "RHI_RenderTexture list"
  m_frustums :: "Frustum list"
  m_shadowMapsProjectionMatrix :: "Matrix list"
  m_viewMatrix :: Matrix
  m_lastPosLight :: Vector3
  m_lastRotLight :: Quaternion
  m_lastPosCamera :: Vector3
  transform :: Transform
  texturesCreated :: nat

text \<open>
  The constructor. It does not assign \<^verbatim>\<open>m_shadowMapCount\<close>,
  \<^verbatim>\<open>m_shadowMapResolution\<close>, the view matrix or the three "last seen" values; they
  (and the transform the actor supplies) are arguments here.
\<close>

definition Light_new ::
  "Transform \<Rightarrow> nat \<Rightarrow> nat \<Rightarrow> Matrix \<Rightarrow> Vector3 \<Rightarrow> Quaternion \<Rightarrow> Vector3 \<Rightarrow> Light" where
  "Light_new tr cnt res vm lp lr lc =
     \<lparr> m_lightType = LightType_Point,
       m_castShadows = True,
       m_range = 1,
       m_intensity = 2,
       m_angle = 1 / 2,
       m_color = Vector4 1 (round32 (76 / 100)) (round32 (57 / 100)) 1,
       m_bias = round32 (1 / 1000),
       m_isDirty = True,
       m_shadowMapSplits = [round32 (1 / 100), round32 (35 / 1000)],
       m_shadowMapCount = cnt,
       m_shadowMapResolution = res,
       m_shadowMaps = [],
       m_frustums = [],
       m_shadowMapsProjectionMatrix = [],
       m_viewMatrix = vm,
       m_lastPosLight = lp,
       m_lastRotLight = lr,
       m_lastPosCamera = lc,
       transform = tr,
       texturesCreated = 0 \<rparr>"

definition ShadowMap_Destroy :: "Light \<Rightarrow> Light" where
  "ShadowMap_Destroy l = l\<lparr> m_shadowMaps := [], m_frustums := [] \<rparr>"

text \<open>The cascade count chosen by \<^verbatim>\<open>ShadowMap_Create\<close> for each light type.\<close>

fun shadowMapCountOf :: "LightType \<Rightarrow> nat" where
  "shadowMapCountOf LightType_Directional = 3"
| "shadowMapCountOf LightType_Point = 6"
| "shadowMapCountOf LightType_Spot = 1"

definition ShadowMap_Create :: "Context \<Rightarrow> bool \<Rightarrow> Light \<Rightarrow> Light" where
  "ShadowMap_Create ctx force l =
     (if \<not> force \<and> m_shadowMaps l \<noteq> [] then l
      else
        let l1 = ShadowMap_Destroy l;
            l2 = l1\<lparr> m_shadowMapCount := shadowMapCountOf (m_lightType l1) \<rparr>;
            l3 = l2\<lparr> m_shadowMapResolution := Shadows_GetResolution ctx \<rparr>;
            n = m_shadowMapCount l3;
            tex = \<lparr> rt_width = m_shadowMapResolution l3,
                    rt_height = m_shadowMapResolution l3 \<rparr>
        in l3\<lparr> m_shadowMaps := m_shadowMaps l3 @ replicate n tex,
                m_frustums := m_frustums l3 @ replicate n Frustum_New,
                texturesCreated := texturesCreated l3 + n \<rparr>)"

definition OnInitialize :: "Context \<Rightarrow> Light \<Rightarrow> Light" where
  "OnInitialize ctx l = ShadowMap_Create ctx True l"

definition OnStart :: "Context \<Rightarrow> Light \<Rightarrow> Light" where
  "OnStart ctx l = ShadowMap_Create ctx False l"

definition SetLightType :: "Context \<Rightarrow> LightType \<Rightarrow> Light \<Rightarrow> Light" where
  "SetLightType ctx ty l =
     ShadowMap_Create ctx True (l\<lparr> m_lightType := ty, m_isDirty := True \<rparr>)"

text \<open>
  \<^verbatim>\<open>if (m_castShadows = castShadows) return;\<close> is an assignment: the flag is stored
  first, and the stored value decides whether the function returns.
\<close>

definition SetCastShadows :: "Context \<Rightarrow> bool \<Rightarrow> Light \<Rightarrow> Light" where
  "SetCastShadows ctx castShadows l =
     (let l1 = l\<lparr> m_castShadows := castShadows \<rparr>
      in if m_castShadows l1 then l1
         else ShadowMap_Create ctx True (l1\<lparr> m_castShadows := castShadows \<rparr>))"

definition ClampRotation :: "Light \<Rightarrow> Light" where
  "ClampRotation l =
     (let rotation = ToEulerAngles (t_rotation (transform l));
          l1 = (if v_x rotation \<le> 0
                then l\<lparr> transform := (transform l)\<lparr> t_rotation :=
                        FromEulerAngles 179 (v_y rotation) (v_z rotation) \<rparr> \<rparr>
                else l);
          l2 = (if v_x rotation \<ge> 180
                then l1\<lparr> transform := (transform l1)\<lparr> t_rotation :=
                        FromEulerAngles 1 (v_y rotation) (v_z rotation) \<rparr> \<rparr>
                else l1)
      in l2)"

definition Vector3_Up :: Vector3 where
  "Vector3_Up = Vector3 0 1 0"

definition ComputeViewMatrix :: "Context \<Rightarrow> Light \<Rightarrow> Light" where
  "ComputeViewMatrix ctx l =
     (let lightDirection = GetForward ctx (t_rotation (transform l));
          position = lightDirection;
          lookAt = Vector3_add position lightDirection;
          up = Vector3_Up
      in l\<lparr> m_viewMatrix := CreateLookAtLH position lookAt up \<rparr>)"

definition ShadowMap_GetProjectionMatrix :: "Light \<Rightarrow> nat \<Rightarrow> Matrix" where
  "ShadowMap_GetProjectionMatrix l index =
     (if index \<ge> length (m_shadowMapsProjectionMatrix l) then Matrix_Identity
      else m_shadowMapsProjectionMatrix l ! index)"

text \<open>The hardcoded half-extent of cascade \<open>index\<close> (0 for any other index).\<close>

definition cascadeExtents :: "nat \<Rightarrow> real" where
  "cascadeExtents index =
     (let extents = 0;
          extents = (if index = 0 then 10 else extents);
          extents = (if index = 1 then 45 else extents);
          extents = (if index = 2 then 90 else extents)
      in extents)"

text \<open>
  \<^verbatim>\<open>ShadowMap_ComputeProjectionMatrix\<close>, in three parts: the cubic box around the
  camera position in light space (before snapping), the size of a shadow-map texel in
  world units (the integer resolution is converted to \<^verbatim>\<open>float\<close> for the division), and
  the snapping of one corner (divide, floor, multiply back). Every operation is the
  binary32 one. For an index of 3 or more, or a resolution of 0, the source divides by
  zero; the theorems below do not speak of those calls.
\<close>

definition cascadeBox :: "Context \<Rightarrow> nat \<Rightarrow> Light \<Rightarrow> Vector3 \<times> Vector3" where
  "cascadeBox ctx index l =
     (let extents = cascadeExtents index;
          center = transformPoint ctx (m_lastPosCamera l) (m_viewMatrix l)
      in (Vector3_sub center (Vector3 extents extents extents),
          Vector3_add center (Vector3 extents extents extents)))"

definition worldUnitsPerTexel :: "nat \<Rightarrow> Light \<Rightarrow> real" where
  "worldUnitsPerTexel index l =
     float_div (float_mul (cascadeExtents index) 2) (round32 (real (m_shadowMapResolution l)))"

definition texelSnap :: "real \<Rightarrow> Vector3 \<Rightarrow> Vector3" where
  "texelSnap fWorldUnitsPerTexel v =
     Vector3_mul (Vector3_Floor (Vector3_div v fWorldUnitsPerTexel)) fWorldUnitsPerTexel"

text \<open>
  Writing \<^verbatim>\<open>m_shadowMapsProjectionMatrix[index]\<close> past the end of the vector is
  undefined in the source; the model reports it as an error.
\<close>

definition ShadowMap_ComputeProjectionMatrix :: "Context \<Rightarrow> nat \<Rightarrow> Light \<Rightarrow> error + Light" where
  "ShadowMap_ComputeProjectionMatrix ctx index l =
     (let fWorldUnitsPerTexel = worldUnitsPerTexel index l;
          min1 = texelSnap fWorldUnitsPerTexel (fst (cascadeBox ctx index l));
          max1 = texelSnap fWorldUnitsPerTexel (snd (cascadeBox ctx index l))
      in if index < length (m_shadowMapsProjectionMatrix l)
         then Inr (l\<lparr> m_shadowMapsProjectionMatrix := (m_shadowMapsProjectionMatrix l)
                 [index := CreateOrthoOffCenterLH (v_x min1) (v_x max1) (v_y min1) (v_y max1)
                             (v_z min1) (v_z max1)] \<rparr>)
         else Inl IndexOutOfRange)"

text \<open>
  The box a projection matrix was built from: the arguments of
  \<^verbatim>\<open>CreateOrthoOffCenterLH(min.x, max.x, min.y, max.y, min.z, max.z)\<close> as two corners.
\<close>

fun projectionBox :: "Matrix \<Rightarrow> (Vector3 \<times> Vector3) option" where
  "projectionBox (CreateOrthoOffCenterLH l r b t n f) = Some (Vector3 l b n, Vector3 r t f)"
| "projectionBox _ = None"

text \<open>Box \<open>outer\<close> contains box \<open>inner\<close> (each a pair of a minimum and a maximum corner).\<close>

definition boxContains :: "Vector3 \<times> Vector3 \<Rightarrow> Vector3 \<times> Vector3 \<Rightarrow> bool" where
  "boxContains outer inner =
     (v_x (fst outer) \<le> v_x (fst inner) \<and> v_y (fst outer) \<le> v_y (fst inner)
      \<and> v_z (fst outer) \<le> v_z (fst inner)
      \<and> v_x (snd inner) \<le> v_x (snd outer) \<and> v_y (snd inner) \<le> v_y (snd outer)
      \<and> v_z (snd inner) \<le> v_z (snd outer))"

text \<open>
  Coordinate \<open>s\<close> is the texel-grid point next to coordinate \<open>c\<close> on one side or the
  other: the binary32 product of the texel size \<open>u\<close> with the whole number of texels at or
  below \<open>c\<close>, or with that number plus one.
\<close>

definition adjacentTexel :: "real \<Rightarrow> real \<Rightarrow> real \<Rightarrow> bool" where
  "adjacentTexel u c s =
     (s = float_mul (of_int \<lfloor>c / u\<rfloor>) u \<or> s = float_mul (of_int (\<lfloor>c / u\<rfloor> + 1)) u)"

definition cornerOnAdjacentTexels :: "real \<Rightarrow> Vector3 \<Rightarrow> Vector3 \<Rightarrow> bool" where
  "cornerOnAdjacentTexels u c s =
     (adjacentTexel u (v_x c) (v_x s) \<and> adjacentTexel u (v_y c) (v_y s)
      \<and> adjacentTexel u (v_z c) (v_z s))"

text \<open>Every coordinate of the corner is fewer than \<open>2^24\<close> texels away from the origin.\<close>

definition withinTexelRange :: "real \<Rightarrow> Vector3 \<Rightarrow> bool" where
  "withinTexelRange u c =
     (\<bar>v_x c / u\<bar> < 2 ^ 24 \<and> \<bar>v_y c / u\<bar> < 2 ^ 24 \<and> \<bar>v_z c / u\<bar> < 2 ^ 24)"

text \<open>
  The loop of \<^verbatim>\<open>OnTick\<close> that rebuilds the projection matrices, for the indices
  \<open>i, i + 1, ...\<close> with \<open>k\<close> of them left to do.
\<close>

fun updateProjectionMatrices :: "Context \<Rightarrow> nat \<Rightarrow> nat \<Rightarrow> Light \<Rightarrow> error + Light" where
  "updateProjectionMatrices ctx i 0 l = Inr l"
| "updateProjectionMatrices ctx i (Suc k) l =
     (case ShadowMap_ComputeProjectionMatrix ctx i
             (l\<lparr> m_shadowMapsProjectionMatrix :=
                    m_shadowMapsProjectionMatrix l @ [Matrix_Default] \<rparr>) of
        Inl e \<Rightarrow> Inl e
      | Inr l' \<Rightarrow> updateProjectionMatrices ctx (Suc i) k l')"

text \<open>The loop of \<^verbatim>\<open>OnTick\<close> that constructs every frustum again.\<close>

definition constructFrustums :: "real \<Rightarrow> Light \<Rightarrow> Light" where
  "constructFrustums farPlane l =
     l\<lparr> m_frustums :=
          map (\<lambda>index. Frustum_Constructed (m_viewMatrix l)
                          (ShadowMap_GetProjectionMatrix l index) farPlane)
              [0 ..< length (m_frustums l)] \<rparr>"

text \<open>
  \<^verbatim>\<open>OnTick\<close>. The camera is fetched and used without a null test before the second
  dirty check, so a world without a main camera is an error there.
\<close>

definition OnTick :: "Context \<Rightarrow> Light \<Rightarrow> error + Light" where
  "OnTick ctx l =
     (if m_lightType l \<noteq> LightType_Directional then Inr l
      else
        let l1 = (if m_lastPosLight l \<noteq> t_position (transform l)
                     \<or> m_lastRotLight l \<noteq> t_rotation (transform l)
                  then (ComputeViewMatrix ctx (ClampRotation
                          (l\<lparr> m_lastPosLight := t_position (transform l),
                              m_lastRotLight := t_rotation (transform l) \<rparr>)))
                       \<lparr> m_isDirty := True \<rparr>
                  else l)
        in case GetMainCamera ctx of
             None \<Rightarrow> Inl NullDereference
           | Some camera \<Rightarrow>
               (case (if m_lastPosCamera l1 \<noteq> cam_position camera
                      then (case updateProjectionMatrices ctx 0 (m_shadowMapCount l1)
                                   (l1\<lparr> m_lastPosCamera := cam_position camera,
                                        m_shadowMapsProjectionMatrix := [] \<rparr>) of
                              Inl e \<Rightarrow> Inl e
                            | Inr l' \<Rightarrow> Inr (l'\<lparr> m_isDirty := True \<rparr>))
                      else Inr l1) of
                  Inl e \<Rightarrow> Inl e
                | Inr l2 \<Rightarrow>
                    if \<not> m_isDirty l2 then Inr l2
                    else Inr (constructFrustums (cam_farPlane camera) l2)))"

text \<open>
  The operations a light receives over its life: the four entry points that touch the
  shadow maps, the tick, and a move of its transform by the scene (which is outside the
  light). A sequence of them runs until one fails.
\<close>

datatype LightOp =
    Op_SetLightType Context LightType
  | Op_OnInitialize Context
  | Op_OnStart Context
  | Op_SetCastShadows Context bool
  | Op_OnTick Context
  | Op_Move Transform

fun applyOp :: "LightOp \<Rightarrow> Light \<Rightarrow> error + Light" where
  "applyOp (Op_SetLightType ctx ty) l = Inr (SetLightType ctx ty l)"
| "applyOp (Op_OnInitialize ctx) l = Inr (OnInitialize ctx l)"
| "applyOp (Op_OnStart ctx) l = Inr (OnStart ctx l)"
| "applyOp (Op_SetCastShadows ctx b) l = Inr (SetCastShadows ctx b l)"
| "applyOp (Op_OnTick ctx) l = OnTick ctx l"
| "applyOp (Op_Move tr) l = Inr (l\<lparr> transform := tr \<rparr>)"

fun runOps :: "LightOp list \<Rightarrow> Light \<Rightarrow> error + Light" where
  "runOps [] l = Inr l"
| "runOps (op # ops) l = (case applyOp op l of Inl e \<Rightarrow> Inl e | Inr l' \<Rightarrow> runOps ops l')"

text \<open>An operation that (re)creates the shadow maps of a light that has none.\<close>

fun createsShadowMaps :: "LightOp \<Rightarrow> bool" where
  "createsShadowMaps (Op_SetLightType ctx ty) = True"
| "createsShadowMaps (Op_OnInitialize ctx) = True"
| "createsShadowMaps (Op_OnStart ctx) = True"
| "createsShadowMaps (Op_SetCastShadows ctx b) = (\<not> b)"
| "createsShadowMaps _ = False"

text \<open>A tick finds a main camera in its world.\<close>

fun tickHasCamera :: "LightOp \<Rightarrow> bool" where
  "tickHasCamera (Op_OnTick ctx) = (GetMainCamera ctx \<noteq> None)"
| "tickHasCamera _ = True"

text \<open>The lengths of the three per-cascade arrays: projection matrices, frustums, shadow maps.\<close>

definition cascadeArrayLengths :: "Light \<Rightarrow> nat \<times> nat \<times> nat" where
  "cascadeArrayLengths l =
     (length (m_shadowMapsProjectionMatrix l), length (m_frustums l), length (m_shadowMaps l))"

section \<open>Pipeline state cache\<close>

text \<open>
  The header \<^verbatim>\<open>RHI_PipelineState.h\<close> declares, for each category of GPU state, a cached
  value and a dirty flag (\<^verbatim>\<open>m_primitiveTopology\<close> and \<^verbatim>\<open>m_primitiveTopologyDirty\<close>, and so
  on for thirteen categories), one setter per category and \<^verbatim>\<open>Bind\<close>. The thirteen pairs
  are kept here as two functions of the category.
\<close>

datatype Category =
    PrimitiveTopology
  | InputLayout
  | CullModeState
  | FillModeState
  | Samplers
  | Textures
  | IndexBuffer
  | VertexBuffer
  | ConstantBuffers
  | VertexShader
  | PixelShader
  | RenderTargets
  | Viewport

text \<open>
  A value handed to a setter: \<open>None\<close> is a null pointer or an empty set, \<open>Some n\<close> names a
  resource, an enumeration value or a viewport. \<open>commits\<close> is the list of state changes
  issued to the device so far, oldest first.
\<close>

record RHI_PipelineState =
  cached :: "Category \<Rightarrow> nat option"
  dirty :: "Category \<Rightarrow> bool"
  commits :: "(Category \<times> nat option) list"

text \<open>
  The setters the header declares with a \<^verbatim>\<open>bool\<close> result take a pointer and can reject it;
  those declared \<^verbatim>\<open>void\<close> (topology, cull mode, fill mode, viewport) take a value.
\<close>

fun rejectsNull :: "Category \<Rightarrow> bool" where
  "rejectsNull PrimitiveTopology = False"
| "rejectsNull CullModeState = False"
| "rejectsNull FillModeState = False"
| "rejectsNull Viewport = False"
| "rejectsNull _ = True"

text \<open>
  Modelled from the spec: the bodies of the setters are not among the files at hand (only
  the header is). By the spec a setter rejects an invalid argument "without mutating
  state", "a setter that supplies a value identical to the cached value is a no-op (no
  dirty flag set)", and any other call stores the value and dirties its category. The
  boolean is the setter's success signal.
\<close>

definition setState :: "Category \<Rightarrow> nat option \<Rightarrow> RHI_PipelineState \<Rightarrow> bool \<times> RHI_PipelineState" where
  "setState c v s =
     (if rejectsNull c \<and> v = None then (False, s)
      else if cached s c = v then (True, s)
      else (True, s\<lparr> cached := (cached s)(c := v), dirty := (dirty s)(c := True) \<rparr>))"

text \<open>
  Modelled from the spec: \<^verbatim>\<open>Bind\<close> is not among the files at hand. By the spec it
  "iterates categories in a fixed order (topology, input layout, rasterizer state,
  samplers, textures, buffers, constant buffers, shaders, render targets, viewport) and
  commits to the device only categories whose dirty flag is set, then clears those
  flags", a flag being "cleared on successful commit"; it "returns failure if any commit
  fails" and does not roll back. \<open>accepts\<close> tells which commits the device accepts.
\<close>

definition bindOrder :: "Category list" where
  "bindOrder =
     [PrimitiveTopology, InputLayout, CullModeState, FillModeState, Samplers, Textures,
      IndexBuffer, VertexBuffer, ConstantBuffers, VertexShader, PixelShader, RenderTargets,
      Viewport]"

fun bindCategories ::
  "(Category \<Rightarrow> bool) \<Rightarrow> Category list \<Rightarrow> RHI_PipelineState \<Rightarrow> bool \<times> RHI_PipelineState" where
  "bindCategories accepts [] s = (True, s)"
| "bindCategories accepts (c # cs) s =
     (if dirty s c
      then
        let s1 = s\<lparr> commits := commits s @ [(c, cached s c)] \<rparr>;
            s2 = (if accepts c then s1\<lparr> dirty := (dirty s1)(c := False) \<rparr> else s1);
            rest = bindCategories accepts cs s2
        in (accepts c \<and> fst rest, snd rest)
      else bindCategories accepts cs s)"

definition Bind :: "(Category \<Rightarrow> bool) \<Rightarrow> RHI_PipelineState \<Rightarrow> bool \<times> RHI_PipelineState" where
  "Bind accepts s = bindCategories accepts bindOrder s"

text \<open>The state changes one call of \<^verbatim>\<open>Bind\<close> issues to the device, in order.\<close>

definition issuedCommits ::
  "(Category \<Rightarrow> bool) \<Rightarrow> RHI_PipelineState \<Rightarrow> (Category \<times> nat option) list" where
  "issuedCommits accepts s = drop (length (commits s)) (commits (snd (Bind accepts s)))"


section \<open>Renderer (frame orchestration)\<close>

subsection \<open>Scene objects as the renderer sees them\<close>

text \<open>
  A pointer the source tests against null, or obtains from \<^verbatim>\<open>GetComponent\<close>, is an
  option. Calling a member through a null pointer is undefined in the source; the model
  reports it as the error \<open>NullDereference\<close>.
\<close>

datatype CullMode = CullNone | CullFront | CullBack

datatype ShadowType = No_Shadows | Hard_Shadows | Soft_Shadows

datatype EngineMode = Editor_Idle | Editor_Playing | Build_Stand_Alone

datatype TextureType = Albedo | Roughness | Metallic | Occlusion | Normal | Height | Mask

datatype FrustrumResult = Outside | Inside | Intersects

record Mesh =
  mesh_indexCount :: nat

text \<open>\<open>mf_setBuffers\<close> is what \<^verbatim>\<open>meshFilter->SetBuffers()\<close> returns for this object.\<close>

record MeshFilter =
  mf_mesh :: "Mesh option"
  mf_center :: Vector3
  mf_boundingBox :: Vector3
  mf_setBuffers :: bool

record Material =
  mat_ID :: nat
  mat_shaderID :: nat
  mat_opacity :: real
  mat_faceCullMode :: CullMode
  mat_shaderResourceView :: "TextureType \<Rightarrow> nat option"

record MeshRenderer =
  mr_material :: "Material option"
  mr_castShadows :: bool
  mr_receiveShadows :: bool

record Camera =
  cam_clearColor :: Vector4
  cam_projection :: Matrix
  cam_orthographicProjection :: Matrix
  cam_view :: Matrix
  cam_baseView :: Matrix
  cam_nearPlane :: real
  cam_far :: real

text \<open>The light component as the renderer uses it (shadow type, cascades, depth maps).\<close>

record SceneLight =
  sl_shadowType :: ShadowType
  sl_cascadeCount :: nat
  sl_depthMap :: "nat \<Rightarrow> nat option"

record Skybox =
  sky_environmentTexture :: "nat option"

record LineRenderer =
  lr_vertexCount :: nat

record GameObject =
  go_meshFilter :: "MeshFilter option"
  go_meshRenderer :: "MeshRenderer option"
  go_skybox :: "Skybox option"
  go_camera :: "Camera option"
  go_light :: "SceneLight option"
  go_lineRenderer :: "LineRenderer option"
  go_worldTransform :: Matrix

subsection \<open>Calls the renderer makes\<close>

text \<open>
  The passes of a frame, and the calls the renderer makes on its collaborators (graphics
  device, shaders, render targets), recorded in the order they are made. \<open>Enter p\<close>
  records that the function implementing pass \<open>p\<close> was called.
\<close>

datatype Pass =
    P_AcquirePrerequisites
  | P_ShadowDepth
  | P_GBuffer
  | P_Deferred
  | P_PostProcess
  | P_Debug

datatype PingPong = RenderTexPing | RenderTexPong

datatype DeferredInput = GBuffer_ShaderResourceView nat | NoiseMap

datatype Event =
    Enter Pass
  | Signal_RenderStart
  | Signal_RenderEnd
  | Graphics_Clear Vector4
  | Graphics_Present
  | Graphics_EnableZBuffer bool
  | Graphics_SetCullMode CullMode
  | Graphics_SetViewport int int
  | Graphics_ResetRenderTarget
  | Graphics_ResetViewport
  | Light_SetShadowMapAsRenderTarget nat
  | DepthShader_Render nat Matrix nat
  | GBuffer_SetRenderTargets
  | GBuffer_Clear Vector4
  | Shader_Set nat
  | Shader_SetResources nat "nat option list"
  | Shader_SetBuffers nat Matrix bool
  | MeshRenderer_Render nat
  | FullScreenQuad_SetBuffers
  | RenderTexture_SetAsRenderTarget PingPong
  | RenderTexture_Clear PingPong Vector4
  | DeferredShader_Render "DeferredInput list" "nat option"
  | PostProcess_Render string PingPong
  | LineRenderer_AddLineList
  | LineRenderer_SetBuffer
  | DebugShader_Render nat
  | Frustrum_ConstructFrustum real

subsection \<open>Renderer state\<close>

text \<open>
  The view frustum: the two matrices it was last given and the planes built from them
  (the arguments of the last \<^verbatim>\<open>ConstructFrustum\<close>, none before the first).
\<close>

datatype Planes = NoPlanes | PlanesOf Matrix Matrix real

record Frustrum =
  fr_projection :: Matrix
  fr_view :: Matrix
  fr_planes :: Planes

record RenderTarget =
  target_width :: int
  target_height :: int

text \<open>
  The renderer's members, the global resolution setting (\<^verbatim>\<open>RESOLUTION_WIDTH\<close>,
  \<^verbatim>\<open>RESOLUTION_HEIGHT\<close>) and the calls made so far. The two mesh counters are C++
  \<^verbatim>\<open>int\<close>s, read as integers without overflow.
\<close>

record Renderer =
  m_camera :: "Camera option"
  m_skybox :: "Skybox option"
  m_lineRenderer :: "LineRenderer option"
  m_directionalLight :: "SceneLight option"
  m_texEnvironment :: "nat option"
  m_renderables :: "GameObject list"
  m_lightsDirectional :: "GameObject list"
  m_lightsPoint :: "GameObject list"
  mProjection :: Matrix
  mOrthographicProjection :: Matrix
  mView :: Matrix
  mBaseView :: Matrix
  m_nearPlane :: real
  m_farPlane :: real
  m_meshesRendered :: int
  m_renderedMeshesCount :: int
  m_frustrum :: Frustrum
  m_textures :: "nat option list"
  m_texArrayDeferredPass :: "DeferredInput list"
  m_GBuffer :: RenderTarget
  m_fullScreenQuad :: RenderTarget
  m_renderTexPing :: RenderTarget
  m_renderTexPong :: RenderTarget
  resolution :: "int \<times> int"
  calls :: "Event list"

text \<open>
  What the renderer reads from its collaborators during a frame: the scene's main camera
  and skybox objects, the shader and material pools, the engine mode, whether the physics
  debug drawer has new lines, whether the deferred shader compiled, and the frustum's
  sphere test (declared outside the files at hand).
\<close>

record FrameEnv =
  scene_GetMainCamera :: "GameObject option"
  scene_GetSkybox :: "GameObject option"
  shaderPool_GetAllShaders :: "nat list"
  materialPool_GetAllMaterials :: "Material list"
  engineMode :: EngineMode
  physicsDebugDraw_IsDirty :: bool
  shaderDeferred_IsCompiled :: bool
  frustrum_CheckSphere :: "Planes \<Rightarrow> Vector3 \<Rightarrow> real \<Rightarrow> FrustrumResult"

definition emit :: "Event \<Rightarrow> Renderer \<Rightarrow> Renderer" where
  "emit e s = s\<lparr> calls := calls s @ [e] \<rparr>"

text \<open>Sequencing of steps that can fail: the first error ends the run.\<close>

definition andThen :: "error + 'a \<Rightarrow> ('a \<Rightarrow> error + 'b) \<Rightarrow> error + 'b" where
  "andThen r f = (case r of Inl e \<Rightarrow> Inl e | Inr a \<Rightarrow> f a)"

subsection \<open>Statistics, resolution, scene update\<close>

definition StartCalculatingStats :: "Renderer \<Rightarrow> Renderer" where
  "StartCalculatingStats s = s\<lparr> m_meshesRendered := 0 \<rparr>"

definition StopCalculatingStats :: "Renderer \<Rightarrow> Renderer" where
  "StopCalculatingStats s = s\<lparr> m_renderedMeshesCount := m_meshesRendered s \<rparr>"

definition GetRenderedMeshesCount :: "Renderer \<Rightarrow> int" where
  "GetRenderedMeshesCount s = m_renderedMeshesCount s"

definition newTarget :: "int \<times> int \<Rightarrow> RenderTarget" where
  "newTarget r = \<lparr> target_width = fst r, target_height = snd r \<rparr>"

definition SetResolution :: "int \<Rightarrow> int \<Rightarrow> Renderer \<Rightarrow> Renderer" where
  "SetResolution width height s =
     (if width = 0 \<or> height = 0 then s
      else
        let s1 = s\<lparr> resolution := (width, height) \<rparr>;
            s2 = emit (Graphics_SetViewport width height) s1;
            s3 = s2\<lparr> m_GBuffer := newTarget (resolution s2) \<rparr>;
            s4 = s3\<lparr> m_fullScreenQuad := newTarget (resolution s3) \<rparr>;
            s5 = s4\<lparr> m_renderTexPing := newTarget (resolution s4) \<rparr>
        in s5\<lparr> m_renderTexPong := newTarget (resolution s5) \<rparr>)"

definition Clear :: "Renderer \<Rightarrow> Renderer" where
  "Clear s = s\<lparr> m_renderables := [], m_lightsDirectional := [], m_lightsPoint := [] \<rparr>"

definition Update ::
  "GameObject list \<Rightarrow> GameObject list \<Rightarrow> GameObject list \<Rightarrow> Renderer \<Rightarrow> Renderer" where
  "Update renderables lightsDirectional lightsPoint s =
     (Clear s)\<lparr> m_renderables := renderables, m_lightsDirectional := lightsDirectional,
                m_lightsPoint := lightsPoint \<rparr>"

subsection \<open>Prerequisites\<close>

definition acquireCameraMatrices :: "Renderer \<Rightarrow> error + Renderer" where
  "acquireCameraMatrices s =
     (case m_camera s of
        None \<Rightarrow> Inl NullDereference
      | Some cam \<Rightarrow>
          Inr (s\<lparr> mProjection := cam_projection cam,
                  mOrthographicProjection := cam_orthographicProjection cam,
                  mView := cam_view cam,
                  mBaseView := cam_baseView cam,
                  m_nearPlane := cam_nearPlane cam,
                  m_farPlane := cam_far cam \<rparr>))"

definition acquireSkybox :: "FrameEnv \<Rightarrow> Renderer \<Rightarrow> Renderer" where
  "acquireSkybox env s =
     (case scene_GetSkybox env of
        Some skybox \<Rightarrow> s\<lparr> m_skybox := go_skybox skybox,
                           m_lineRenderer := go_lineRenderer skybox \<rparr>
      | None \<Rightarrow> s)"

definition acquireDirectionalLight :: "Renderer \<Rightarrow> Renderer" where
  "acquireDirectionalLight s =
     (if length (m_lightsDirectional s) \<noteq> 0
      then s\<lparr> m_directionalLight := go_light (m_lightsDirectional s ! 0) \<rparr>
      else s\<lparr> m_directionalLight := None \<rparr>)"

text \<open>
  \<^verbatim>\<open>AcquirePrerequisites\<close>. With a main camera object, \<^verbatim>\<open>m_camera\<close> is its camera
  component and is used without a null test to read the matrices.
\<close>

definition AcquirePrerequisites :: "FrameEnv \<Rightarrow> Renderer \<Rightarrow> error + Renderer" where
  "AcquirePrerequisites env s0 =
     (let s = emit (Enter P_AcquirePrerequisites) s0
      in case scene_GetMainCamera env of
           Some camera \<Rightarrow>
             acquireCameraMatrices
               (acquireDirectionalLight (acquireSkybox env (s\<lparr> m_camera := go_camera camera \<rparr>)))
         | None \<Rightarrow>
             Inr (s\<lparr> m_camera := None, m_skybox := None, m_lineRenderer := None,
                     m_directionalLight := None \<rparr>))"

subsection \<open>View-frustum test\<close>

definition IsInViewFrustrum ::
  "FrameEnv \<Rightarrow> Vector3 \<Rightarrow> Vector3 \<Rightarrow> Renderer \<Rightarrow> bool \<times> Renderer" where
  "IsInViewFrustrum env center extent s =
     (let s1 = (if fr_projection (m_frustrum s) \<noteq> mProjection s
                   \<or> fr_view (m_frustrum s) \<noteq> mView s
                then emit (Frustrum_ConstructFrustum (m_farPlane s))
                       (s\<lparr> m_frustrum := \<lparr> fr_projection = mProjection s, fr_view = mView s,
                              fr_planes = PlanesOf (mView s) (mProjection s) (m_farPlane s) \<rparr> \<rparr>)
                else s);
          radius = max (max \<bar>v_x extent\<bar> \<bar>v_y extent\<bar>) \<bar>v_z extent\<bar>
      in if frustrum_CheckSphere env (fr_planes (m_frustrum s1)) center radius = Outside
         then (False, s1)
         else (True, s1))"

subsection \<open>Shadow-depth pass\<close>

text \<open>The body of the inner loop of \<^verbatim>\<open>DirectionalLightDepthPass\<close> for one object.\<close>

definition depthObject :: "nat \<Rightarrow> GameObject \<Rightarrow> Renderer \<Rightarrow> error + Renderer" where
  "depthObject cascadeIndex gameObject s =
     (let meshRenderer = go_meshRenderer gameObject;
          meshFilter = go_meshFilter gameObject
      in case meshFilter of
           None \<Rightarrow> Inl NullDereference
         | Some mf \<Rightarrow>
             (case mf_mesh mf of
                None \<Rightarrow> Inr s
              | Some mesh \<Rightarrow>
                  if go_skybox gameObject \<noteq> None then Inr s
                  else (case meshRenderer of
                          None \<Rightarrow> Inl NullDereference
                        | Some mr \<Rightarrow>
                            if \<not> mr_castShadows mr then Inr s
                            else if mf_setBuffers mf
                            then Inr (emit (DepthShader_Render (mesh_indexCount mesh)
                                             (go_worldTransform gameObject) cascadeIndex) s)
                            else Inr s)))"

fun depthObjects :: "nat \<Rightarrow> GameObject list \<Rightarrow> Renderer \<Rightarrow> error + Renderer" where
  "depthObjects cascadeIndex [] s = Inr s"
| "depthObjects cascadeIndex (g # gs) s =
     andThen (depthObject cascadeIndex g s) (depthObjects cascadeIndex gs)"

text \<open>The outer loop, over the cascades \<open>i, i + 1, ...\<close> with \<open>k\<close> of them left.\<close>

fun depthCascades :: "nat \<Rightarrow> nat \<Rightarrow> Renderer \<Rightarrow> error + Renderer" where
  "depthCascades i 0 s = Inr s"
| "depthCascades i (Suc k) s =
     andThen (depthObjects i (m_renderables s) (emit (Light_SetShadowMapAsRenderTarget i) s))
       (depthCascades (Suc i) k)"

definition DirectionalLightDepthPass :: "Renderer \<Rightarrow> error + Renderer" where
  "DirectionalLightDepthPass s0 =
     (let s = emit (Graphics_SetCullMode CullFront) (emit (Enter P_ShadowDepth) s0)
      in case m_directionalLight s of
           None \<Rightarrow> Inl NullDereference
         | Some light \<Rightarrow> depthCascades 0 (sl_cascadeCount light) s)"

subsection \<open>Geometry-buffer pass\<close>

text \<open>
  The body of the innermost loop of \<^verbatim>\<open>GBufferPass\<close> for one object. Mesh and material
  are fetched through the mesh filter and the mesh renderer before the test
  \<^verbatim>\<open>if (!meshFilter || !mesh || !meshRenderer || !material) continue;\<close> so at the test
  both components are known to be there, and the test is on the mesh and the material.
\<close>

definition gbufferDraw ::
  "nat \<Rightarrow> Material \<Rightarrow> GameObject \<Rightarrow> MeshFilter \<Rightarrow> Mesh \<Rightarrow> MeshRenderer \<Rightarrow> Material
     \<Rightarrow> Renderer \<Rightarrow> Renderer" where
  "gbufferDraw currentShader currentMaterial gameObject mf mesh mr material s =
     (let s1 = emit (Shader_SetBuffers currentShader (go_worldTransform gameObject)
                       (mr_receiveShadows mr)) s
      in if mf_setBuffers mf
         then (emit (MeshRenderer_Render (mesh_indexCount mesh))
                 (emit (Graphics_SetCullMode (mat_faceCullMode material)) s1))
              \<lparr> m_meshesRendered := m_meshesRendered s1 + 1 \<rparr>
         else s1)"

definition gbufferObject ::
  "FrameEnv \<Rightarrow> nat \<Rightarrow> Material \<Rightarrow> GameObject \<Rightarrow> Renderer \<Rightarrow> error + Renderer" where
  "gbufferObject env currentShader currentMaterial gameObject s =
     (case go_meshFilter gameObject of
        None \<Rightarrow> Inl NullDereference
      | Some mf \<Rightarrow>
          (case go_meshRenderer gameObject of
             None \<Rightarrow> Inl NullDereference
           | Some mr \<Rightarrow>
               (case (mf_mesh mf, mr_material mr) of
                  (Some mesh, Some material) \<Rightarrow>
                    if mat_ID currentMaterial \<noteq> mat_ID material then Inr s
                    else if mat_opacity material < 1 then Inr s
                    else
                      (case IsInViewFrustrum env (mf_center mf) (mf_boundingBox mf) s of
                         (False, s1) \<Rightarrow> Inr s1
                       | (True, s1) \<Rightarrow>
                           Inr (gbufferDraw currentShader currentMaterial gameObject mf mesh
                                  mr material s1))
                | _ \<Rightarrow> Inr s)))"

fun gbufferObjects ::
  "FrameEnv \<Rightarrow> nat \<Rightarrow> Material \<Rightarrow> GameObject list \<Rightarrow> Renderer \<Rightarrow> error + Renderer" where
  "gbufferObjects env currentShader currentMaterial [] s = Inr s"
| "gbufferObjects env currentShader currentMaterial (g # gs) s =
     andThen (gbufferObject env currentShader currentMaterial g s)
       (gbufferObjects env currentShader currentMaterial gs)"

text \<open>The textures bound for one material: its seven maps, then the light's depth maps.\<close>

definition materialTextures :: "Material \<Rightarrow> nat option list" where
  "materialTextures m =
     map (mat_shaderResourceView m) [Albedo, Roughness, Metallic, Occlusion, Normal, Height, Mask]"

definition lightTextures :: "SceneLight option \<Rightarrow> nat option list" where
  "lightTextures l =
     (case l of
        Some light \<Rightarrow> map (sl_depthMap light) [0 ..< sl_cascadeCount light]
      | None \<Rightarrow> [None])"

definition gbufferMaterial ::
  "FrameEnv \<Rightarrow> nat \<Rightarrow> Material \<Rightarrow> Renderer \<Rightarrow> error + Renderer" where
  "gbufferMaterial env currentShader currentMaterial s =
     (if mat_shaderID currentMaterial \<noteq> currentShader then Inr s
      else
        let s1 = s\<lparr> m_textures := m_textures s @ materialTextures currentMaterial
                                    @ lightTextures (m_directionalLight s) \<rparr>;
            s2 = emit (Shader_SetResources currentShader (m_textures s1)) s1
        in andThen (gbufferObjects env currentShader currentMaterial (m_renderables s2) s2)
             (\<lambda>s3. Inr (s3\<lparr> m_textures := [] \<rparr>)))"

fun gbufferMaterials ::
  "FrameEnv \<Rightarrow> nat \<Rightarrow> Material list \<Rightarrow> Renderer \<Rightarrow> error + Renderer" where
  "gbufferMaterials env currentShader [] s = Inr s"
| "gbufferMaterials env currentShader (m # ms) s =
     andThen (gbufferMaterial env currentShader m s) (gbufferMaterials env currentShader ms)"

fun gbufferShaders :: "FrameEnv \<Rightarrow> nat list \<Rightarrow> Renderer \<Rightarrow> error + Renderer" where
  "gbufferShaders env [] s = Inr s"
| "gbufferShaders env (sh # shs) s =
     andThen (gbufferMaterials env sh (materialPool_GetAllMaterials env) (emit (Shader_Set sh) s))
       (gbufferShaders env shs)"

definition GBufferPass :: "FrameEnv \<Rightarrow> Renderer \<Rightarrow> error + Renderer" where
  "GBufferPass env s =
     gbufferShaders env (shaderPool_GetAllShaders env) (emit (Enter P_GBuffer) s)"


subsection \<open>Deferred, post-process and debug passes\<close>

definition clearColorOf :: "Renderer \<Rightarrow> Vector4" where
  "clearColorOf s = (case m_camera s of Some cam \<Rightarrow> cam_clearColor cam | None \<Rightarrow> Vector4 0 0 0 1)"

definition Ping :: "Renderer \<Rightarrow> Renderer" where
  "Ping s =
     emit (RenderTexture_Clear RenderTexPing (clearColorOf s)) (emit (RenderTexture_SetAsRenderTarget RenderTexPing) s)"

definition Pong :: "Renderer \<Rightarrow> Renderer" where
  "Pong s =
     emit (RenderTexture_Clear RenderTexPong (clearColorOf s)) (emit (RenderTexture_SetAsRenderTarget RenderTexPong) s)"

definition DeferredPass :: "FrameEnv \<Rightarrow> Renderer \<Rightarrow> Renderer" where
  "DeferredPass env s0 =
     (let s = emit (Enter P_Deferred) s0
      in if \<not> shaderDeferred_IsCompiled env then s
         else
           let s1 = Ping s;
               s2 = s1\<lparr> m_texArrayDeferredPass :=
                         [GBuffer_ShaderResourceView 0, GBuffer_ShaderResourceView 1,
                          GBuffer_ShaderResourceView 2, GBuffer_ShaderResourceView 3, NoiseMap] \<rparr>;
               s3 = s2\<lparr> m_texEnvironment :=
                         (case m_skybox s2 of Some sky \<Rightarrow> sky_environmentTexture sky
                          | None \<Rightarrow> None) \<rparr>
           in emit (DeferredShader_Render (m_texArrayDeferredPass s3) (m_texEnvironment s3)) s3)"

text \<open>\<^verbatim>\<open>PostProcessing\<close> reads the camera's clear colour without a null test.\<close>

definition PostProcessing :: "Renderer \<Rightarrow> error + Renderer" where
  "PostProcessing s0 =
     (let s1 = emit (PostProcess_Render ''FXAA'' RenderTexPing) (Pong (emit (Enter P_PostProcess) s0));
          s2 = emit Graphics_ResetViewport (emit Graphics_ResetRenderTarget s1)
      in case m_camera s2 of
           None \<Rightarrow> Inl NullDereference
         | Some cam \<Rightarrow>
             Inr (emit (PostProcess_Render ''SHARPENING'' RenderTexPong)
                    (emit (Graphics_Clear (cam_clearColor cam)) s2)))"

definition Gizmos :: "FrameEnv \<Rightarrow> Renderer \<Rightarrow> error + Renderer" where
  "Gizmos env s0 =
     (let s = emit (Enter P_Debug) s0
      in case m_lineRenderer s of
           None \<Rightarrow> Inr s
         | Some lines \<Rightarrow>
             if \<not> physicsDebugDraw_IsDirty env then Inr s
             else
               let s1 = emit LineRenderer_SetBuffer (emit LineRenderer_AddLineList s)
               in case m_camera s1 of
                    None \<Rightarrow> Inl NullDereference
                  | Some cam \<Rightarrow> Inr (emit (DebugShader_Render (lr_vertexCount lines)) s1))"

subsection \<open>The frame\<close>

text \<open>The part of \<^verbatim>\<open>Render\<close> after the two early returns.\<close>

definition renderShadows :: "Renderer \<Rightarrow> error + Renderer" where
  "renderShadows s =
     (case m_directionalLight s of
        Some light \<Rightarrow>
          if sl_shadowType light \<noteq> No_Shadows then DirectionalLightDepthPass s else Inr s
      | None \<Rightarrow> Inr s)"

definition renderGizmos :: "FrameEnv \<Rightarrow> Renderer \<Rightarrow> error + Renderer" where
  "renderGizmos env s = (if engineMode env = Editor_Idle then Gizmos env s else Inr s)"

definition renderFrame :: "FrameEnv \<Rightarrow> Camera \<Rightarrow> Renderer \<Rightarrow> error + Renderer" where
  "renderFrame env cam s =
     andThen (renderShadows (emit (Graphics_EnableZBuffer True) s)) (\<lambda>s1.
     andThen (GBufferPass env
                (emit (GBuffer_Clear (cam_clearColor cam)) (emit GBuffer_SetRenderTargets s1))) (\<lambda>s2.
     andThen (PostProcessing
                (DeferredPass env
                   (emit FullScreenQuad_SetBuffers (emit (Graphics_EnableZBuffer False) s2)))) (\<lambda>s3.
     andThen (renderGizmos env s3) (\<lambda>s4.
     Inr (emit Signal_RenderEnd (StopCalculatingStats (emit Graphics_Present s4)))))))"

definition Render :: "FrameEnv \<Rightarrow> Renderer \<Rightarrow> error + Renderer" where
  "Render env s0 =
     andThen (AcquirePrerequisites env (StartCalculatingStats (emit Signal_RenderStart s0))) (\<lambda>s.
       case m_camera s of
         None \<Rightarrow> Inr (emit Graphics_Present (emit (Graphics_Clear (Vector4 0 0 0 1)) s))
       | Some cam \<Rightarrow>
           if m_renderables s = []
           then Inr (emit Graphics_Present (emit (Graphics_Clear (cam_clearColor cam)) s))
           else renderFrame env cam s)"

text \<open>
  The pass-level view of the calls: which pass functions were entered, and the clears and
  presents of the graphics device.
\<close>

fun isPassLevel :: "Event \<Rightarrow> bool" where
  "isPassLevel (Enter p) = True"
| "isPassLevel (Graphics_Clear c) = True"
| "isPassLevel Graphics_Present = True"
| "isPassLevel _ = False"

definition passTrace :: "Event list \<Rightarrow> Event list" where
  "passTrace es = filter isPassLevel es"

text \<open>
  A frame's inputs in which no null pointer is dereferenced: a main camera object has a
  camera component, and every renderable has a mesh filter and a mesh renderer.
\<close>

definition hasRenderComponents :: "GameObject \<Rightarrow> bool" where
  "hasRenderComponents g = (go_meshFilter g \<noteq> None \<and> go_meshRenderer g \<noteq> None)"

definition frameWellFormed :: "FrameEnv \<Rightarrow> Renderer \<Rightarrow> bool" where
  "frameWellFormed env s =
     ((case scene_GetMainCamera env of Some camera \<Rightarrow> go_camera camera \<noteq> None | None \<Rightarrow> True)
      \<and> list_all hasRenderComponents (m_renderables s))"

text \<open>
  Whether a frame with a camera has a directional light whose shadow type is not
  \<^verbatim>\<open>No_Shadows\<close>: the light component of the first object of the directional-light list.
\<close>

definition shadowsDue :: "Renderer \<Rightarrow> bool" where
  "shadowsDue s =
     (case m_lightsDirectional s of
        [] \<Rightarrow> False
      | g # gs \<Rightarrow> (case go_light g of None \<Rightarrow> False
                   | Some light \<Rightarrow> sl_shadowType light \<noteq> No_Shadows))"


subsection \<open>The renderer after construction, and a small scene\<close>

text \<open>
  The constructor followed by \<^verbatim>\<open>Initialize\<close>: null pointers, zero counters and planes,
  default matrices, a fresh frustum, and render targets of the global resolution.
\<close>

definition Renderer_new :: "int \<times> int \<Rightarrow> Renderer" where
  "Renderer_new res =
     \<lparr> m_camera = None,
       m_skybox = None,
       m_lineRenderer = None,
       m_directionalLight = None,
       m_texEnvironment = None,
       m_renderables = [],
       m_lightsDirectional = [],
       m_lightsPoint = [],
       mProjection = Matrix_Default,
       mOrthographicProjection = Matrix_Default,
       mView = Matrix_Default,
       mBaseView = Matrix_Default,
       m_nearPlane = 0,
       m_farPlane = 0,
       m_meshesRendered = 0,
       m_renderedMeshesCount = 0,
       m_frustrum = \<lparr> fr_projection = Matrix_Default, fr_view = Matrix_Default,
                       fr_planes = NoPlanes \<rparr>,
       m_textures = [],
       m_texArrayDeferredPass = [],
       m_GBuffer = newTarget res,
       m_fullScreenQuad = newTarget res,
       m_renderTexPing = newTarget res,
       m_renderTexPong = newTarget res,
       resolution = res,
       calls = [] \<rparr>"

definition emptyObject :: GameObject where
  "emptyObject =
     \<lparr> go_meshFilter = None, go_meshRenderer = None, go_skybox = None, go_camera = None,
       go_light = None, go_lineRenderer = None, go_worldTransform = Matrix_Identity \<rparr>"

definition sceneCamera :: Camera where
  "sceneCamera =
     \<lparr> cam_clearColor = Vector4 (1 / 4) (1 / 2) (3 / 4) 1,
       cam_projection = Matrix_Entries [1], cam_orthographicProjection = Matrix_Entries [2],
       cam_view = Matrix_Entries [3], cam_baseView = Matrix_Entries [4],
       cam_nearPlane = 1 / 8, cam_far = 100 \<rparr>"

definition cameraObject :: GameObject where
  "cameraObject = emptyObject\<lparr> go_camera := Some sceneCamera \<rparr>"

definition sceneMaterial :: Material where
  "sceneMaterial =
     \<lparr> mat_ID = 7, mat_shaderID = 1, mat_opacity = 1, mat_faceCullMode = CullBack,
       mat_shaderResourceView = (\<lambda>t. None) \<rparr>"

definition cubeFilter :: MeshFilter where
  "cubeFilter =
     \<lparr> mf_mesh = Some \<lparr> mesh_indexCount = 36 \<rparr>, mf_center = Vector3 0 0 50,
       mf_boundingBox = Vector3 1 (- 2) 1, mf_setBuffers = True \<rparr>"

text \<open>A cube with mesh, mesh renderer and material.\<close>

definition cubeObject :: GameObject where
  "cubeObject =
     emptyObject\<lparr> go_meshFilter := Some cubeFilter,
                  go_meshRenderer := Some \<lparr> mr_material = Some sceneMaterial,
                                            mr_castShadows = True, mr_receiveShadows = True \<rparr> \<rparr>"

text \<open>The same cube with a mesh renderer that has no material.\<close>

definition noMaterialObject :: GameObject where
  "noMaterialObject =
     emptyObject\<lparr> go_meshFilter := Some cubeFilter,
                  go_meshRenderer := Some \<lparr> mr_material = None,
                                            mr_castShadows = True, mr_receiveShadows = True \<rparr> \<rparr>"

definition sunLight :: SceneLight where
  "sunLight = \<lparr> sl_shadowType = Hard_Shadows, sl_cascadeCount = 1, sl_depthMap = (\<lambda>i. Some i) \<rparr>"

definition sunObject :: GameObject where
  "sunObject = emptyObject\<lparr> go_light := Some sunLight \<rparr>"

text \<open>A world with a camera, one shader and one material, in the editor; then without camera.\<close>

definition editorEnv :: FrameEnv where
  "editorEnv =
     \<lparr> scene_GetMainCamera = Some cameraObject,
       scene_GetSkybox = None,
       shaderPool_GetAllShaders = [1],
       materialPool_GetAllMaterials = [sceneMaterial],
       engineMode = Editor_Idle,
       physicsDebugDraw_IsDirty = False,
       shaderDeferred_IsCompiled = True,
       frustrum_CheckSphere = (\<lambda>p c r. Inside) \<rparr>"

definition noCameraEnv :: FrameEnv where
  "noCameraEnv = editorEnv\<lparr> scene_GetMainCamera := None \<rparr>"

definition cubeScene :: Renderer where
  "cubeScene = Update [cubeObject] [sunObject] [] (Renderer_new (1920, 1080))"

text \<open>A renderer about to run the shadow-depth pass over the cube without material.\<close>

definition noMaterialScene :: Renderer where
  "noMaterialScene =
     (Update [noMaterialObject] [sunObject] [] (Renderer_new (1920, 1080)))
       \<lparr> m_directionalLight := Some sunLight \<rparr>"

text \<open>A cube whose mesh filter holds no mesh (and whose mesh renderer holds no material).\<close>

definition noMeshObject :: GameObject where
  "noMeshObject =
     emptyObject\<lparr> go_meshFilter := Some (cubeFilter\<lparr> mf_mesh := None \<rparr>),
                  go_meshRenderer := Some \<lparr> mr_material = None,
                                            mr_castShadows = True, mr_receiveShadows = True \<rparr> \<rparr>"

text \<open>
  A renderer whose camera matrices differ from the ones its frustum holds, and a world
  whose sphere test rejects what lies wholly beyond the far plane of those matrices.
\<close>

definition staleFrustrumScene :: Renderer where
  "staleFrustrumScene =
     cubeScene\<lparr> mProjection := Matrix_Entries [1], mView := Matrix_Entries [3],
                m_farPlane := 100 \<rparr>"

definition farPlaneEnv :: FrameEnv where
  "farPlaneEnv =
     editorEnv\<lparr> frustrum_CheckSphere :=
       (\<lambda>p c r. if p = PlanesOf (Matrix_Entries [3]) (Matrix_Entries [1]) 100 \<and> v_z c - r > 100
                 then Outside else Inside) \<rparr>"


section \<open>Example inputs and invariants\<close>

subsection \<open>Concrete lights and contexts used as examples\<close>

definition exampleContext :: Context where
  "exampleContext =
     \<lparr> Shadows_GetResolution = 2048, GetMainCamera = None,
       GetForward = (\<lambda>q. Vector3 0 0 1), transformPoint = (\<lambda>p m. p) \<rparr>"

definition exampleCameraContext :: Context where
  "exampleCameraContext =
     exampleContext\<lparr> GetMainCamera :=
       Some \<lparr> cam_position = Vector3 0 1 (- 5), cam_farPlane = 1000 \<rparr> \<rparr>"

definition exampleTransform :: Transform where
  "exampleTransform = \<lparr> t_position = Vector3 0 10 0, t_rotation = FromEulerAngles 30 0 0 \<rparr>"

definition newLight :: Light where
  "newLight = Light_new exampleTransform 0 0 Matrix_Identity (Vector3 0 0 0)
                (FromEulerAngles 0 0 0) (Vector3 0 0 0)"

text \<open>
  A directional light with one projection slot, a 2048 shadow map and the camera last
  seen half a texel off the grid in x.
\<close>

definition offGridLight :: Light where
  "offGridLight =
     (Light_new exampleTransform 3 2048 Matrix_Identity (Vector3 0 0 0)
        (FromEulerAngles 0 0 0) (Vector3 (5 / 1024) 0 0))
     \<lparr> m_lightType := LightType_Directional,
       m_shadowMapsProjectionMatrix := [Matrix_Default] \<rparr>"

text \<open>
  A directional light with two projection slots, a shadow map of 1000 texels and the camera
  last seen at x = 4.5 in light space.
\<close>

definition roundingLight :: Light where
  "roundingLight =
     (Light_new exampleTransform 3 1000 Matrix_Identity (Vector3 0 0 0)
        (FromEulerAngles 0 0 0) (Vector3 (9 / 2) 0 0))
     \<lparr> m_lightType := LightType_Directional,
       m_shadowMapsProjectionMatrix := [Matrix_Default, Matrix_Default] \<rparr>"

text \<open>
  A directional light with two projection slots, a 2048 shadow map and the camera last
  seen far from the origin, at x = 1791310 in light space.
\<close>

definition farLight :: Light where
  "farLight =
     (Light_new exampleTransform 3 2048 Matrix_Identity (Vector3 0 0 0)
        (FromEulerAngles 0 0 0) (Vector3 1791310 0 0))
     \<lparr> m_lightType := LightType_Directional,
       m_shadowMapsProjectionMatrix := [Matrix_Default, Matrix_Default] \<rparr>"

text \<open>A light whose transform is pitched to -10 degrees.\<close>

definition pitchedDownLight :: Light where
  "pitchedDownLight =
     newLight\<lparr> transform := \<lparr> t_position = Vector3 0 10 0,
                               t_rotation = FromEulerAngles (- 10) 0 0 \<rparr> \<rparr>"

definition exampleOps :: "LightOp list" where
  "exampleOps = [Op_SetLightType exampleCameraContext LightType_Directional,
                 Op_OnTick exampleCameraContext]"

subsection \<open>Invariants of the light\<close>

text \<open>
  Two invariants: a light no creating operation has reached yet, and a light whose shadow
  maps have been created.
\<close>

definition lightFresh :: "Light \<Rightarrow> bool" where
  "lightFresh l =
     (m_lightType l = LightType_Point \<and> m_shadowMaps l = [] \<and> m_frustums l = []
      \<and> m_shadowMapsProjectionMatrix l = [])"

definition lightCreated :: "Light \<Rightarrow> bool" where
  "lightCreated l =
     (length (m_shadowMaps l) = shadowMapCountOf (m_lightType l)
      \<and> length (m_frustums l) = shadowMapCountOf (m_lightType l)
      \<and> m_shadowMapCount l = shadowMapCountOf (m_lightType l)
      \<and> (length (m_shadowMapsProjectionMatrix l) = 0
          \<or> length (m_shadowMapsProjectionMatrix l) = 3))"

subsection \<open>What a pass leaves alone\<close>

text \<open>
  \<open>passStep s s' es\<close>: from \<open>s\<close> to \<open>s'\<close> the camera, line renderer, renderable list and
  directional light are unchanged and the pass-level calls grew by \<open>es\<close>.
\<close>

definition passStep :: "Renderer \<Rightarrow> Renderer \<Rightarrow> Event list \<Rightarrow> bool" where
  "passStep s s' es =
     (m_camera s' = m_camera s \<and> m_lineRenderer s' = m_lineRenderer s
      \<and> m_renderables s' = m_renderables s \<and> m_directionalLight s' = m_directionalLight s
      \<and> passTrace (calls s') = passTrace (calls s) @ es)"


text \<open>The renderer with its renderable list replaced.\<close>

definition withRenderables :: "GameObject list \<Rightarrow> Renderer \<Rightarrow> Renderer" where
  "withRenderables r s = s\<lparr> m_renderables := r \<rparr>"


section \<open>Properties of the light\<close>

subsection \<open>Binary32 rounding\<close>

lemma roundHalfEven_of_int: "roundHalfEven (of_int k) = k"
  by (simp add: roundHalfEven_def)

lemma roundHalfEven_bounds: "\<lfloor>y\<rfloor> \<le> roundHalfEven y \<and> roundHalfEven y \<le> \<lfloor>y\<rfloor> + 1"
  by (simp add: roundHalfEven_def Let_def)

lemma roundHalfEven_error: "\<bar>of_int (roundHalfEven y) - y\<bar> \<le> 1 / 2"
proof -
  have "of_int \<lfloor>y\<rfloor> \<le> y" "y < of_int \<lfloor>y\<rfloor> + 1" by linarith+
  then show ?thesis by (auto simp: roundHalfEven_def Let_def)
qed

lemma roundHalfEven_mono:
  assumes "x \<le> y"
  shows "roundHalfEven x \<le> roundHalfEven y"
proof (cases "\<lfloor>x\<rfloor> = \<lfloor>y\<rfloor>")
  case True
  then show ?thesis using assms by (auto simp: roundHalfEven_def Let_def)
next
  case False
  with assms have "\<lfloor>x\<rfloor> < \<lfloor>y\<rfloor>" using floor_mono[OF assms] by linarith
  then have "\<lfloor>x\<rfloor> + 1 \<le> \<lfloor>y\<rfloor>" by simp
  with roundHalfEven_bounds[of x] roundHalfEven_bounds[of y] show ?thesis by linarith
qed

lemma floor_log2_iff:
  assumes "0 < a"
  shows "\<lfloor>log 2 a\<rfloor> = p \<longleftrightarrow> 2 powi p \<le> a \<and> a < 2 powi (p + 1)"
proof -
  have a: "(2::real) powr real_of_int p = 2 powi p"
    by (rule powr_real_of_int') simp_all
  have b: "(2::real) powr real_of_int (p + 1) = 2 powi (p + 1)"
    by (rule powr_real_of_int') simp_all
  have "\<lfloor>log 2 a\<rfloor> = p \<longleftrightarrow>
          2 powr real_of_int p \<le> a \<and> a < 2 powr real_of_int (p + 1)"
    by (rule floor_log_eq_powr_iff) (use assms in simp_all)
  then show ?thesis by (simp only: a b)
qed

lemma binade_eq:
  assumes "2 powi p \<le> \<bar>x\<bar>" and "\<bar>x\<bar> < 2 powi (p + 1)"
  shows "binade x = p"
proof -
  have "(0::real) < 2 powi p" by (simp add: zero_less_power_int)
  with assms(1) have pos: "0 < \<bar>x\<bar>" by linarith
  show ?thesis unfolding binade_def floor_log2_iff[OF pos] using assms by simp
qed

lemma binade_bounds:
  assumes "x \<noteq> 0"
  shows "2 powi (binade x) \<le> \<bar>x\<bar> \<and> \<bar>x\<bar> < 2 powi (binade x + 1)"
proof -
  have pos: "0 < \<bar>x\<bar>" using assms by simp
  have "\<lfloor>log 2 \<bar>x\<bar>\<rfloor> = binade x" by (simp add: binade_def)
  then show ?thesis by (simp only: floor_log2_iff[OF pos])
qed

lemma quantum_pos: "0 < quantum x"
  by (simp add: quantum_def zero_less_power_int)

lemma binade_less:
  assumes "x \<noteq> 0" and "\<bar>x\<bar> < 2 powi p"
  shows "binade x < p"
proof (rule ccontr)
  assume "\<not> binade x < p"
  then have "p \<le> binade x" by simp
  then have "(2::real) powi p \<le> 2 powi (binade x)"
    by (intro power_int_increasing) simp_all
  with binade_bounds[OF assms(1)] assms(2) show False by linarith
qed

text \<open>An integer multiple of a power of two not below the quantum divides evenly.\<close>

lemma of_int_div_powi:
  assumes "e \<le> d"
  shows "of_int k * 2 powi d / 2 powi e = (of_int (k * 2 ^ nat (d - e)) :: real)"
proof -
  have "(2::real) powi d = 2 powi (d - e) * 2 powi e"
    by (simp add: power_int_add[symmetric])
  moreover have "(2::real) powi (d - e) = 2 ^ nat (d - e)"
    using assms by (simp add: power_int_def)
  ultimately show ?thesis by (simp add: zero_less_power_int)
qed

lemma round32_representable:
  assumes x: "x = of_int k * 2 powi e" and k: "\<bar>k\<bar> < 2 ^ 24" and e: "- 149 \<le> e"
  shows "round32 x = x"
proof (cases "x = 0")
  case True
  then show ?thesis by (simp add: round32_def)
next
  case False
  have "\<bar>x\<bar> = of_int \<bar>k\<bar> * 2 powi e" by (simp add: x abs_mult)
  also have "\<dots> < 2 ^ 24 * 2 powi e"
  proof -
    have "(of_int \<bar>k\<bar> :: real) < 2 ^ 24" using k by (metis of_int_less_numeral_power_cancel_iff)
    then show ?thesis by (simp add: zero_less_power_int)
  qed
  also have "\<dots> = 2 powi (e + 24)" by (simp add: power_int_add)
  finally have "binade x < e + 24" using binade_less[OF False] by simp
  define m where "m = max (binade x - 23) (- 149)"
  have q: "m \<le> e" using e \<open>binade x < e + 24\<close> by (simp add: m_def)
  have qm: "quantum x = 2 powi m" by (simp add: quantum_def m_def)
  have "x / quantum x = of_int k * 2 powi e / 2 powi m" by (simp only: qm) (simp only: x)
  also have "\<dots> = of_int (k * 2 ^ nat (e - m))" by (rule of_int_div_powi[OF q])
  finally have "of_int (roundHalfEven (x / quantum x)) = x / quantum x"
    by (simp only: roundHalfEven_of_int)
  then show ?thesis using False quantum_pos[of x] by (simp add: round32_def)
qed

lemma round32_of_int: "\<bar>k\<bar> < 2 ^ 24 \<Longrightarrow> round32 (of_int k) = of_int k"
  by (rule round32_representable[where k = k and e = 0]) simp_all

lemma round32_between_integers:
  assumes y: "\<bar>y\<bar> < 2 ^ 24" and n: "of_int n \<le> y" and m: "y \<le> of_int m"
  shows "of_int n \<le> round32 y \<and> round32 y \<le> of_int m"
proof (cases "y = 0")
  case True
  then show ?thesis using n m by (simp add: round32_def)
next
  case False
  have "\<bar>y\<bar> < 2 powi 24" using y by simp
  from binade_less[OF False this] have q: "max (binade y - 23) (- 149) \<le> 0" by simp
  let ?e = "max (binade y - 23) (- 149)"
  have dn: "of_int n / quantum y = (of_int (n * 2 ^ nat (0 - ?e)) :: real)"
    using of_int_div_powi[OF q, of n] by (simp add: quantum_def)
  have dm: "of_int m / quantum y = (of_int (m * 2 ^ nat (0 - ?e)) :: real)"
    using of_int_div_powi[OF q, of m] by (simp add: quantum_def)
  have "of_int n / quantum y \<le> y / quantum y" "y / quantum y \<le> of_int m / quantum y"
    using n m quantum_pos[of y] by (simp_all add: divide_right_mono)
  then have "roundHalfEven (of_int n / quantum y) \<le> roundHalfEven (y / quantum y)"
    "roundHalfEven (y / quantum y) \<le> roundHalfEven (of_int m / quantum y)"
    by (simp_all only: roundHalfEven_mono)
  then have "n * 2 ^ nat (0 - ?e) \<le> roundHalfEven (y / quantum y)"
    "roundHalfEven (y / quantum y) \<le> m * 2 ^ nat (0 - ?e)"
    by (simp_all only: dn dm roundHalfEven_of_int)
  then have "(of_int (n * 2 ^ nat (0 - ?e)) :: real) \<le> of_int (roundHalfEven (y / quantum y))"
    "(of_int (roundHalfEven (y / quantum y)) :: real) \<le> of_int (m * 2 ^ nat (0 - ?e))"
    by (simp_all only: of_int_le_iff)
  then have "of_int n / quantum y \<le> of_int (roundHalfEven (y / quantum y))"
    "of_int (roundHalfEven (y / quantum y)) \<le> of_int m / quantum y"
    by (simp_all only: dn dm)
  then have "of_int n \<le> of_int (roundHalfEven (y / quantum y)) * quantum y"
    "of_int (roundHalfEven (y / quantum y)) * quantum y \<le> of_int m"
    using quantum_pos[of y] by (simp_all add: pos_divide_le_eq pos_le_divide_eq)
  then show ?thesis using False by (simp add: round32_def)
qed

lemma round32_error:
  "\<bar>round32 x - x\<bar> \<le> quantum x / 2"
proof (cases "x = 0")
  case True
  then show ?thesis using quantum_pos[of x] by (simp add: round32_def)
next
  case False
  have "\<bar>of_int (roundHalfEven (x / quantum x)) - x / quantum x\<bar> * quantum x \<le> 1 / 2 * quantum x"
    using roundHalfEven_error[of "x / quantum x"] quantum_pos[of x]
    by (intro mult_right_mono) simp_all
  moreover have "\<bar>of_int (roundHalfEven (x / quantum x)) - x / quantum x\<bar> * quantum x
      = \<bar>of_int (roundHalfEven (x / quantum x)) * quantum x - x\<bar>"
  proof -
    have "of_int (roundHalfEven (x / quantum x)) * quantum x - x
            = (of_int (roundHalfEven (x / quantum x)) - x / quantum x) * quantum x"
      using quantum_pos[of x] by (simp add: field_simps)
    then show ?thesis using quantum_pos[of x] by (simp only: abs_mult abs_of_pos)
  qed
  ultimately show ?thesis using False by (simp add: round32_def)
qed

lemma quantum_le:
  assumes "2 powi (- 149) \<le> \<bar>x\<bar>"
  shows "quantum x \<le> \<bar>x\<bar>"
proof -
  have "(0::real) < 2 powi (- 149)" by (simp add: zero_less_power_int)
  with assms have nz: "x \<noteq> 0" by auto
  show ?thesis
  proof (cases "binade x - 23 \<le> - 149")
    case True
    then show ?thesis using assms by (simp add: quantum_def max_def)
  next
    case False
    then have "quantum x = 2 powi (binade x - 23)" by (simp add: quantum_def max_def)
    also have "\<dots> \<le> 2 powi (binade x)" by (intro power_int_increasing) simp_all
    finally show ?thesis using binade_bounds[OF nz] by linarith
  qed
qed

lemma round32_pos:
  assumes "2 powi (- 149) \<le> x"
  shows "0 < round32 x"
proof -
  have "(0::real) < 2 powi (- 149)" by (simp add: zero_less_power_int)
  with assms have x: "0 < x" by linarith
  have "quantum x \<le> x" using quantum_le[of x] assms x by simp
  then have "1 \<le> x / quantum x" using quantum_pos[of x] by (simp add: pos_le_divide_eq)
  then have "roundHalfEven (of_int 1) \<le> roundHalfEven (x / quantum x)"
    by (intro roundHalfEven_mono) simp
  then have "1 \<le> roundHalfEven (x / quantum x)" by (simp only: roundHalfEven_of_int)
  then have "(0::real) < of_int (roundHalfEven (x / quantum x))" by simp
  then show ?thesis using x quantum_pos[of x] by (simp add: round32_def)
qed


lemma round32_eval:
  assumes "2 powi p \<le> \<bar>x\<bar>" and "\<bar>x\<bar> < 2 powi (p + 1)"
  shows "round32 x = of_int (roundHalfEven (x / 2 powi (max (p - 23) (- 149))))
                       * 2 powi (max (p - 23) (- 149))"
proof -
  have "(0::real) < 2 powi p" by (simp add: zero_less_power_int)
  with assms(1) have "0 < \<bar>x\<bar>" by linarith
  then have "x \<noteq> 0" by simp
  then show ?thesis by (simp add: round32_def quantum_def binade_eq[OF assms])
qed

subsection \<open>Texel snapping\<close>

lemma snap_coordinate:
  assumes "\<bar>c / u\<bar> < 2 ^ 24"
  shows "adjacentTexel u c (float_mul (of_int \<lfloor>float_div c u\<rfloor>) u)"
proof -
  let ?n = "\<lfloor>c / u\<rfloor>"
  have "of_int ?n \<le> c / u" "c / u \<le> of_int (?n + 1)" by linarith+
  from round32_between_integers[OF assms this]
  have "of_int ?n \<le> round32 (c / u)" "round32 (c / u) \<le> of_int (?n + 1)" by simp_all
  then have "?n \<le> \<lfloor>round32 (c / u)\<rfloor>" "\<lfloor>round32 (c / u)\<rfloor> \<le> ?n + 1"
    by (simp_all add: le_floor_iff floor_le_iff)
  then have "\<lfloor>round32 (c / u)\<rfloor> = ?n \<or> \<lfloor>round32 (c / u)\<rfloor> = ?n + 1" by linarith
  then show ?thesis by (auto simp: adjacentTexel_def float_div_def)
qed

lemma texelSnap_adjacent:
  assumes "withinTexelRange u c"
  shows "cornerOnAdjacentTexels u c (texelSnap u c)"
  using assms snap_coordinate[of "v_x c" u] snap_coordinate[of "v_y c" u]
    snap_coordinate[of "v_z c" u]
  by (simp add: withinTexelRange_def cornerOnAdjacentTexels_def texelSnap_def Vector3_mul_def
      Vector3_Floor_def Vector3_div_def)

lemma round32_resolution:
  assumes "0 < res" and "res < (2::nat) ^ 32"
  shows "0 < round32 (real res) \<and> round32 (real res) \<le> 2 ^ 33"
proof -
  have r1: "(1::real) \<le> real res" using assms(1) by simp
  have r2: "real res < 2 ^ 32" using assms(2) by (metis of_nat_less_numeral_power_cancel_iff)
  have "(2::real) powi (- 149) \<le> 2 powi 0" by (intro power_int_increasing) simp_all
  then have "2 powi (- 149) \<le> \<bar>real res\<bar>" using r1 by simp
  from quantum_le[OF this] have "quantum (real res) \<le> real res" by simp
  with round32_error[of "real res"] have "\<bar>round32 (real res) - real res\<bar> \<le> real res / 2"
    by linarith
  then have h: "real res / 2 \<le> round32 (real res)" "round32 (real res) \<le> 3 * real res / 2"
    by linarith+
  have r3: "real res < 4294967296" using r2 by simp
  have "0 < round32 (real res)" using h(1) r1 by linarith
  moreover have "round32 (real res) \<le> 8589934592" using h(2) r3 by linarith
  ultimately show ?thesis by simp
qed

lemma worldUnitsPerTexel_pos:
  assumes i: "index < 3" and r: "0 < m_shadowMapResolution l"
    and b: "m_shadowMapResolution l < 2 ^ 32"
  shows "0 < worldUnitsPerTexel index l"
proof -
  let ?b = "round32 (real (m_shadowMapResolution l))"
  from round32_resolution[OF r b] have bb: "0 < ?b" "?b \<le> 2 ^ 33" by simp_all
  from i have "index = 0 \<or> index = 1 \<or> index = 2" by arith
  then have "cascadeExtents index * 2 = of_int 20 \<or> cascadeExtents index * 2 = of_int 90
               \<or> cascadeExtents index * 2 = of_int 180"
    by (auto simp: cascadeExtents_def)
  then have m: "float_mul (cascadeExtents index) 2 = cascadeExtents index * 2"
    "20 \<le> cascadeExtents index * 2"
    unfolding float_mul_def using round32_of_int[of 20] round32_of_int[of 90] round32_of_int[of 180]
    by auto
  have "(2::real) powi (- 149) \<le> 2 powi (- 33)" by (intro power_int_increasing) simp_all
  also have "\<dots> = 1 / 2 ^ 33" by (simp add: power_int_minus_divide)
  also have "\<dots> \<le> 1 / ?b" using bb by (intro divide_left_mono) simp_all
  also have "\<dots> \<le> (cascadeExtents index * 2) / ?b"
    using bb m(2) by (intro divide_right_mono) simp_all
  finally have "0 < round32 ((cascadeExtents index * 2) / ?b)" by (rule round32_pos)
  then show ?thesis by (simp add: worldUnitsPerTexel_def float_div_def m(1))
qed

text \<open>Binary32 values met in the examples, and two roundings of values that are not.\<close>

lemma binary32_values:
  "round32 20 = 20" "round32 2048 = 2048" "round32 (5 / 512) = 5 / 512"
  "round32 (- (10235 / 1024)) = - (10235 / 1024)" "round32 (10245 / 1024) = 10245 / 1024"
  "round32 (- 10) = - 10" "round32 10 = 10"
  "round32 (- (2047 / 2)) = - (2047 / 2)" "round32 (2049 / 2) = 2049 / 2"
  "round32 (- 1024) = - 1024" "round32 1024 = 1024"
  "round32 90 = 90" "round32 1000 = 1000" "round32 (99 / 2) = 99 / 2"
proof -
  show "round32 20 = 20" using round32_of_int[of 20] by simp
  show "round32 2048 = 2048" using round32_of_int[of 2048] by simp
  show "round32 (5 / 512) = 5 / 512"
    by (rule round32_representable[where k = 5 and e = "- 9"])
      (simp_all add: power_int_minus_divide)
  show "round32 (- (10235 / 1024)) = - (10235 / 1024)"
    by (rule round32_representable[where k = "- 10235" and e = "- 10"])
      (simp_all add: power_int_minus_divide)
  show "round32 (10245 / 1024) = 10245 / 1024"
    by (rule round32_representable[where k = 10245 and e = "- 10"])
      (simp_all add: power_int_minus_divide)
  show "round32 (- 10) = - 10" using round32_of_int[of "- 10"] by simp
  show "round32 10 = 10" using round32_of_int[of 10] by simp
  show "round32 (- (2047 / 2)) = - (2047 / 2)"
    by (rule round32_representable[where k = "- 2047" and e = "- 1"])
      (simp_all add: power_int_minus_divide)
  show "round32 (2049 / 2) = 2049 / 2"
    by (rule round32_representable[where k = 2049 and e = "- 1"])
      (simp_all add: power_int_minus_divide)
  show "round32 (- 1024) = - 1024" using round32_of_int[of "- 1024"] by simp
  show "round32 1024 = 1024" using round32_of_int[of 1024] by simp
  show "round32 90 = 90" using round32_of_int[of 90] by simp
  show "round32 1000 = 1000" using round32_of_int[of 1000] by simp
  show "round32 (99 / 2) = 99 / 2"
    by (rule round32_representable[where k = 99 and e = "- 1"])
      (simp_all add: power_int_minus_divide)
qed

lemma binary32_roundings:
  "round32 (9 / 100) = 3019899 / 33554432"
  "round32 (553648128 / 1006633) = 550"
  "round32 (830472225 / 16777216) = 12976129 / 262144"
proof -
  show "round32 (9 / 100) = 3019899 / 33554432"
    by (subst round32_eval[where p = "- 4"])
      (simp_all add: power_int_minus_divide roundHalfEven_def Let_def)
  show "round32 (553648128 / 1006633) = 550"
    by (subst round32_eval[where p = 9])
      (simp_all add: power_int_minus_divide roundHalfEven_def Let_def)
  show "round32 (830472225 / 16777216) = 12976129 / 262144"
    by (subst round32_eval[where p = 5])
      (simp_all add: power_int_minus_divide roundHalfEven_def Let_def)
qed

lemma offGridLight_texel: "worldUnitsPerTexel 0 offGridLight = 5 / 512"
  by (simp add: worldUnitsPerTexel_def offGridLight_def Light_new_def cascadeExtents_def
      float_mul_def float_div_def binary32_values)

lemma offGridLight_box:
  "cascadeBox exampleContext 0 offGridLight =
     (Vector3 (- (10235 / 1024)) (- 10) (- 10), Vector3 (10245 / 1024) 10 10)"
  by (simp add: cascadeBox_def offGridLight_def Light_new_def cascadeExtents_def
      exampleContext_def Vector3_add_def Vector3_sub_def float_add_def float_sub_def
      binary32_values)

text \<open>
  Claim C3, as stated, fails: the snapped box need not contain the unsnapped one. With
  a 2048 shadow map, cascade 0 and the camera at x = 5/1024 in light space, the unsnapped
  box reaches x = 10 + 5/1024, and the snapped box (both corners floored) ends at x = 10.
  Every value in this computation is a binary32 value, so nothing is rounded.
\<close>

theorem texel_snap_contains_counterexample:
  "ShadowMap_ComputeProjectionMatrix exampleContext 0 offGridLight =
     Inr (offGridLight\<lparr> m_shadowMapsProjectionMatrix :=
            [CreateOrthoOffCenterLH (- 10) 10 (- 10) 10 (- 10) 10] \<rparr>)
   \<and> cascadeBox exampleContext 0 offGridLight =
       (Vector3 (- 10 + 5 / 1024) (- 10) (- 10), Vector3 (10 + 5 / 1024) 10 10)
   \<and> \<not> boxContains (Vector3 (- 10) (- 10) (- 10), Vector3 10 10 10)
         (cascadeBox exampleContext 0 offGridLight)"
  by (simp add: ShadowMap_ComputeProjectionMatrix_def Let_def exampleContext_def
      offGridLight_def Light_new_def worldUnitsPerTexel_def cascadeExtents_def
      cascadeBox_def texelSnap_def Vector3_mul_def Vector3_Floor_def Vector3_div_def
      Vector3_add_def Vector3_sub_def boxContains_def float_add_def float_sub_def
      float_mul_def float_div_def binary32_values)

text \<open>
  Rounding can also push a snapped coordinate up. With a shadow map of 1000 texels, cascade
  1 and the camera at x = 4.5, the texel size 0.09 rounds to 3019899/33554432, the
  unsnapped maximum is x = 49.5, the quotient 549.99997... rounds to 550, and the snapped
  maximum is 12976129/262144 = 49.5000038..., one binary32 step above 49.5.
\<close>

lemma texel_snap_rounding_example:
  "worldUnitsPerTexel 1 roundingLight = 3019899 / 33554432
   \<and> v_x (snd (cascadeBox exampleContext 1 roundingLight)) = 99 / 2
   \<and> v_x (texelSnap (worldUnitsPerTexel 1 roundingLight)
            (snd (cascadeBox exampleContext 1 roundingLight))) = 12976129 / 262144"
proof -
  have u: "worldUnitsPerTexel 1 roundingLight = 3019899 / 33554432"
    by (simp add: worldUnitsPerTexel_def roundingLight_def Light_new_def cascadeExtents_def
        float_mul_def float_div_def binary32_values binary32_roundings)
  have b: "snd (cascadeBox exampleContext 1 roundingLight) = Vector3 (99 / 2) 45 45"
    using round32_of_int[of 45]
    by (simp add: cascadeBox_def roundingLight_def Light_new_def cascadeExtents_def
        exampleContext_def Vector3_add_def float_add_def binary32_values)
  have s: "v_x (texelSnap (3019899 / 33554432) (Vector3 (99 / 2) 45 45)) = 12976129 / 262144"
    by (simp add: texelSnap_def Vector3_mul_def Vector3_Floor_def Vector3_div_def float_mul_def
        float_div_def binary32_roundings)
  show ?thesis unfolding u b using s by (simp del: One_nat_def)
qed

text \<open>
  Far from the origin the quotient itself is rounded to another integer. With a 2048 shadow
  map, cascade 1 and the camera at x = 1791310, the unsnapped minimum is x = 1791265, more
  than \<open>2^24\<close> texels of size 45/1024 away; the quotient 40761230.2... rounds to 40761232,
  and the snapped minimum is 1791265.125, above the unsnapped one.
\<close>

lemma far_roundings:
  "round32 (45 / 1024) = 45 / 1024"
  "round32 1791265 = 1791265"
  "round32 (- 45) = - 45"
  "round32 (366851072 / 9) = 40761232"
  "round32 (114640965 / 64) = 14330121 / 8"
proof -
  show "round32 (45 / 1024) = 45 / 1024"
    by (rule round32_representable[where k = 45 and e = "- 10"])
      (simp_all add: power_int_minus_divide)
  show "round32 1791265 = 1791265" using round32_of_int[of 1791265] by simp
  show "round32 (- 45) = - 45" using round32_of_int[of "- 45"] by simp
  show "round32 (366851072 / 9) = 40761232"
    by (subst round32_eval[where p = 25])
      (simp_all add: power_int_minus_divide roundHalfEven_def Let_def)
  show "round32 (114640965 / 64) = 14330121 / 8"
    by (subst round32_eval[where p = 20])
      (simp_all add: power_int_minus_divide roundHalfEven_def Let_def)
qed

lemma texel_snap_far_example:
  "worldUnitsPerTexel 1 farLight = 45 / 1024
   \<and> v_x (fst (cascadeBox exampleContext 1 farLight)) = 1791265
   \<and> v_x (texelSnap (worldUnitsPerTexel 1 farLight)
            (fst (cascadeBox exampleContext 1 farLight))) = 14330121 / 8
   \<and> \<not> withinTexelRange (worldUnitsPerTexel 1 farLight)
         (fst (cascadeBox exampleContext 1 farLight))"
proof -
  have u: "worldUnitsPerTexel 1 farLight = 45 / 1024"
    by (simp add: worldUnitsPerTexel_def farLight_def Light_new_def cascadeExtents_def
        float_mul_def float_div_def binary32_values far_roundings)
  have b: "fst (cascadeBox exampleContext 1 farLight) = Vector3 1791265 (- 45) (- 45)"
    by (simp add: cascadeBox_def farLight_def Light_new_def cascadeExtents_def
        exampleContext_def Vector3_sub_def float_sub_def far_roundings)
  have s: "v_x (texelSnap (45 / 1024) (Vector3 1791265 (- 45) (- 45))) = 14330121 / 8"
    by (simp add: texelSnap_def Vector3_mul_def Vector3_Floor_def Vector3_div_def float_mul_def
        float_div_def far_roundings)
  have r: "\<not> withinTexelRange (45 / 1024) (Vector3 1791265 (- 45) (- 45))"
    by (simp add: withinTexelRange_def)
  show ?thesis unfolding u b using s r by (simp del: One_nat_def)
qed

text \<open>
  Claim C3, amended: for every cascade index below 3, every shadow-map resolution from 1
  to \<open>2^32 - 1\<close> and every camera position for which each coordinate of the two unsnapped
  corners (\<open>center - extents\<close> and \<open>center + extents\<close>) is fewer than \<open>2^24\<close> texels from the
  light-space origin, \<^verbatim>\<open>ShadowMap_ComputeProjectionMatrix\<close> (called with a slot for that
  index in the projection array, as \<^verbatim>\<open>OnTick\<close> does) computes a positive texel size
  \<open>worldUnitsPerTexel\<close> and stores the projection of a box of which every corner coordinate
  is the binary32 product of the texel size with \<open>floor (c / worldUnitsPerTexel)\<close> or with
  that number plus one, \<open>c\<close> being the same coordinate of the unsnapped corner. Each face
  of the snapped box lies on a texel-grid plane next to the unsnapped face; the snapped box
  need not contain the unsnapped one.
\<close>

theorem texel_snap_lands_on_adjacent_texels:
  assumes "index < 3" and "0 < m_shadowMapResolution l" and "m_shadowMapResolution l < 2 ^ 32"
    and "index < length (m_shadowMapsProjectionMatrix l)"
    and "withinTexelRange (worldUnitsPerTexel index l) (fst (cascadeBox ctx index l))"
    and "withinTexelRange (worldUnitsPerTexel index l) (snd (cascadeBox ctx index l))"
  shows "\<exists>l' mn mx.
           ShadowMap_ComputeProjectionMatrix ctx index l = Inr l'
           \<and> projectionBox (m_shadowMapsProjectionMatrix l' ! index) = Some (mn, mx)
           \<and> 0 < worldUnitsPerTexel index l
           \<and> cornerOnAdjacentTexels (worldUnitsPerTexel index l)
                 (fst (cascadeBox ctx index l)) mn
           \<and> cornerOnAdjacentTexels (worldUnitsPerTexel index l)
                 (snd (cascadeBox ctx index l)) mx"
proof -
  let ?u = "worldUnitsPerTexel index l"
  let ?mn = "texelSnap ?u (fst (cascadeBox ctx index l))"
  let ?mx = "texelSnap ?u (snd (cascadeBox ctx index l))"
  let ?m = "CreateOrthoOffCenterLH (v_x ?mn) (v_x ?mx) (v_y ?mn) (v_y ?mx) (v_z ?mn) (v_z ?mx)"
  have u: "0 < ?u" using assms(1,2,3) by (rule worldUnitsPerTexel_pos)
  have "ShadowMap_ComputeProjectionMatrix ctx index l =
          Inr (l\<lparr> m_shadowMapsProjectionMatrix :=
                    (m_shadowMapsProjectionMatrix l)[index := ?m] \<rparr>)"
    using assms(4) by (simp add: ShadowMap_ComputeProjectionMatrix_def Let_def)
  moreover have "projectionBox ((m_shadowMapsProjectionMatrix l)[index := ?m] ! index)
                   = Some (?mn, ?mx)"
    using assms(4) by simp
  moreover have "cornerOnAdjacentTexels ?u (fst (cascadeBox ctx index l)) ?mn"
    using assms(5) by (rule texelSnap_adjacent)
  moreover have "cornerOnAdjacentTexels ?u (snd (cascadeBox ctx index l)) ?mx"
    using assms(6) by (rule texelSnap_adjacent)
  ultimately show ?thesis using u by simp
qed

theorem texel_snap_lands_on_adjacent_texels_witness:
  "(0::nat) < 3 \<and> 0 < m_shadowMapResolution offGridLight
   \<and> m_shadowMapResolution offGridLight < 2 ^ 32
   \<and> 0 < length (m_shadowMapsProjectionMatrix offGridLight)
   \<and> withinTexelRange (worldUnitsPerTexel 0 offGridLight)
         (fst (cascadeBox exampleContext 0 offGridLight))
   \<and> withinTexelRange (worldUnitsPerTexel 0 offGridLight)
         (snd (cascadeBox exampleContext 0 offGridLight))
   \<and> (\<exists>l' mn mx.
         ShadowMap_ComputeProjectionMatrix exampleContext 0 offGridLight = Inr l'
         \<and> projectionBox (m_shadowMapsProjectionMatrix l' ! 0) = Some (mn, mx)
         \<and> 0 < worldUnitsPerTexel 0 offGridLight
         \<and> cornerOnAdjacentTexels (worldUnitsPerTexel 0 offGridLight)
               (fst (cascadeBox exampleContext 0 offGridLight)) mn
         \<and> cornerOnAdjacentTexels (worldUnitsPerTexel 0 offGridLight)
               (snd (cascadeBox exampleContext 0 offGridLight)) mx)"
proof -
  have h: "(0::nat) < 3" "0 < m_shadowMapResolution offGridLight"
    "m_shadowMapResolution offGridLight < 2 ^ 32"
    "0 < length (m_shadowMapsProjectionMatrix offGridLight)"
    by (simp_all add: offGridLight_def Light_new_def)
  have r: "withinTexelRange (worldUnitsPerTexel 0 offGridLight)
             (fst (cascadeBox exampleContext 0 offGridLight))"
    "withinTexelRange (worldUnitsPerTexel 0 offGridLight)
             (snd (cascadeBox exampleContext 0 offGridLight))"
    by (simp_all add: offGridLight_texel offGridLight_box withinTexelRange_def)
  show ?thesis
    using h r texel_snap_lands_on_adjacent_texels[OF h r] by simp
qed

subsection \<open>Lengths of the per-cascade arrays\<close>

lemma lightCreated_castShadows: "lightCreated (l\<lparr> m_castShadows := b \<rparr>) = lightCreated l"
  by (simp add: lightCreated_def)

lemma lightFresh_castShadows: "lightFresh (l\<lparr> m_castShadows := b \<rparr>) = lightFresh l"
  by (simp add: lightFresh_def)

lemma Create_forced: "length (m_shadowMapsProjectionMatrix l) = 0 \<or> length (m_shadowMapsProjectionMatrix l) = 3
  \<Longrightarrow> lightCreated (ShadowMap_Create ctx True l)"
  by (simp add: lightCreated_def ShadowMap_Create_def ShadowMap_Destroy_def Let_def)

lemma Create_unforced: "lightCreated l \<or> lightFresh l \<Longrightarrow> lightCreated (ShadowMap_Create ctx False l)"
  by (auto simp add: lightCreated_def lightFresh_def ShadowMap_Create_def ShadowMap_Destroy_def Let_def)

lemma Create_created: "lightCreated l \<Longrightarrow> lightCreated (ShadowMap_Create ctx force l)"
  by (auto simp add: lightCreated_def ShadowMap_Create_def ShadowMap_Destroy_def Let_def)

lemma ComputeProjectionMatrix_fields:
  "ShadowMap_ComputeProjectionMatrix ctx i l = Inr l' \<Longrightarrow>
     length (m_shadowMapsProjectionMatrix l') = length (m_shadowMapsProjectionMatrix l)
     \<and> m_shadowMaps l' = m_shadowMaps l \<and> m_frustums l' = m_frustums l
     \<and> m_lightType l' = m_lightType l \<and> m_shadowMapCount l' = m_shadowMapCount l"
  by (auto simp: ShadowMap_ComputeProjectionMatrix_def Let_def split: if_splits)

lemma updateProjectionMatrices_ok:
  "i = length (m_shadowMapsProjectionMatrix l) \<Longrightarrow>
   \<exists>l'. updateProjectionMatrices ctx i k l = Inr l'
      \<and> length (m_shadowMapsProjectionMatrix l') = i + k
      \<and> m_shadowMaps l' = m_shadowMaps l \<and> m_frustums l' = m_frustums l
      \<and> m_lightType l' = m_lightType l \<and> m_shadowMapCount l' = m_shadowMapCount l"
proof (induction k arbitrary: i l)
  case 0
  then show ?case by simp
next
  case (Suc k)
  let ?l1 = "l\<lparr> m_shadowMapsProjectionMatrix := m_shadowMapsProjectionMatrix l @ [Matrix_Default] \<rparr>"
  obtain l2 where l2: "ShadowMap_ComputeProjectionMatrix ctx i ?l1 = Inr l2"
    using Suc.prems by (simp add: ShadowMap_ComputeProjectionMatrix_def Let_def)
  note f = ComputeProjectionMatrix_fields[OF l2]
  have "Suc i = length (m_shadowMapsProjectionMatrix l2)" using f Suc.prems by simp
  from Suc.IH[OF this, of ] obtain l' where
    "updateProjectionMatrices ctx (Suc i) k l2 = Inr l'"
    "length (m_shadowMapsProjectionMatrix l') = Suc i + k"
    "m_shadowMaps l' = m_shadowMaps l2" "m_frustums l' = m_frustums l2"
    "m_lightType l' = m_lightType l2" "m_shadowMapCount l' = m_shadowMapCount l2"
    by blast
  then show ?case using l2 f by simp
qed

lemma ClampRotation_fields:
  "m_shadowMaps (ClampRotation l) = m_shadowMaps l \<and> m_frustums (ClampRotation l) = m_frustums l
   \<and> m_lightType (ClampRotation l) = m_lightType l \<and> m_shadowMapCount (ClampRotation l) = m_shadowMapCount l
   \<and> m_shadowMapsProjectionMatrix (ClampRotation l) = m_shadowMapsProjectionMatrix l"
  by (simp add: ClampRotation_def Let_def)

lemma ComputeViewMatrix_fields:
  "m_shadowMaps (ComputeViewMatrix ctx l) = m_shadowMaps l \<and> m_frustums (ComputeViewMatrix ctx l) = m_frustums l
   \<and> m_lightType (ComputeViewMatrix ctx l) = m_lightType l \<and> m_shadowMapCount (ComputeViewMatrix ctx l) = m_shadowMapCount l
   \<and> m_shadowMapsProjectionMatrix (ComputeViewMatrix ctx l) = m_shadowMapsProjectionMatrix l"
  by (simp add: ComputeViewMatrix_def Let_def)

lemma constructFrustums_fields:
  "m_shadowMaps (constructFrustums f l) = m_shadowMaps l \<and> length (m_frustums (constructFrustums f l)) = length (m_frustums l)
   \<and> m_lightType (constructFrustums f l) = m_lightType l \<and> m_shadowMapCount (constructFrustums f l) = m_shadowMapCount l
   \<and> m_shadowMapsProjectionMatrix (constructFrustums f l) = m_shadowMapsProjectionMatrix l"
  by (simp add: constructFrustums_def)

lemma OnTick_fresh: "lightFresh l \<Longrightarrow> OnTick ctx l = Inr l"
  by (simp add: OnTick_def lightFresh_def)

lemma OnTick_directional:
  assumes ty: "m_lightType l = LightType_Directional" and camera: "GetMainCamera ctx = Some camera"
  shows "\<exists>l'. OnTick ctx l = Inr l'
           \<and> m_shadowMaps l' = m_shadowMaps l
           \<and> length (m_frustums l') = length (m_frustums l)
           \<and> m_lightType l' = m_lightType l
           \<and> m_shadowMapCount l' = m_shadowMapCount l
           \<and> length (m_shadowMapsProjectionMatrix l') =
               (if m_lastPosCamera l \<noteq> cam_position camera then m_shadowMapCount l
                else length (m_shadowMapsProjectionMatrix l))"
proof -
  define l1 where "l1 = (if m_lastPosLight l \<noteq> t_position (transform l)
                     \<or> m_lastRotLight l \<noteq> t_rotation (transform l)
                  then (ComputeViewMatrix ctx (ClampRotation
                          (l\<lparr> m_lastPosLight := t_position (transform l),
                              m_lastRotLight := t_rotation (transform l) \<rparr>)))
                       \<lparr> m_isDirty := True \<rparr>
                  else l)"
  have l1: "m_shadowMaps l1 = m_shadowMaps l" "m_frustums l1 = m_frustums l"
    "m_lightType l1 = m_lightType l" "m_shadowMapCount l1 = m_shadowMapCount l"
    "m_shadowMapsProjectionMatrix l1 = m_shadowMapsProjectionMatrix l"
    "m_lastPosCamera l1 = m_lastPosCamera l"
    by (simp_all add: l1_def ClampRotation_def ComputeViewMatrix_def Let_def)
  define r where "r = (if m_lastPosCamera l1 \<noteq> cam_position camera
                      then (case updateProjectionMatrices ctx 0 (m_shadowMapCount l1)
                                   (l1\<lparr> m_lastPosCamera := cam_position camera,
                                        m_shadowMapsProjectionMatrix := [] \<rparr>) of
                              Inl e \<Rightarrow> Inl e
                            | Inr l' \<Rightarrow> Inr (l'\<lparr> m_isDirty := True \<rparr>))
                      else Inr l1)"
  have "\<exists>l2. r = Inr l2 \<and> m_shadowMaps l2 = m_shadowMaps l \<and> m_frustums l2 = m_frustums l
           \<and> m_lightType l2 = m_lightType l \<and> m_shadowMapCount l2 = m_shadowMapCount l
           \<and> length (m_shadowMapsProjectionMatrix l2) =
               (if m_lastPosCamera l \<noteq> cam_position camera then m_shadowMapCount l
                else length (m_shadowMapsProjectionMatrix l))"
  proof (cases "m_lastPosCamera l1 \<noteq> cam_position camera")
    case False
    then show ?thesis using l1 by (simp add: r_def)
  next
    case True
    let ?l = "l1\<lparr> m_lastPosCamera := cam_position camera, m_shadowMapsProjectionMatrix := [] \<rparr>"
    have "0 = length (m_shadowMapsProjectionMatrix ?l)" by simp
    from updateProjectionMatrices_ok[OF this, of ctx "m_shadowMapCount l1"]
    obtain l' where l': "updateProjectionMatrices ctx 0 (m_shadowMapCount l1) ?l = Inr l'"
      "length (m_shadowMapsProjectionMatrix l') = 0 + m_shadowMapCount l1"
      "m_shadowMaps l' = m_shadowMaps ?l" "m_frustums l' = m_frustums ?l"
      "m_lightType l' = m_lightType ?l" "m_shadowMapCount l' = m_shadowMapCount ?l"
      by blast
    have "r = Inr (l'\<lparr> m_isDirty := True \<rparr>)" using True l'(1) by (simp add: r_def)
    then show ?thesis using True l'(2-) l1 by simp
  qed
  then obtain l2 where l2: "r = Inr l2" "m_shadowMaps l2 = m_shadowMaps l"
    "m_frustums l2 = m_frustums l" "m_lightType l2 = m_lightType l"
    "m_shadowMapCount l2 = m_shadowMapCount l"
    "length (m_shadowMapsProjectionMatrix l2) =
               (if m_lastPosCamera l \<noteq> cam_position camera then m_shadowMapCount l
                else length (m_shadowMapsProjectionMatrix l))" by blast
  have "OnTick ctx l = (case r of Inl e \<Rightarrow> Inl e
                | Inr l2 \<Rightarrow>
                    if \<not> m_isDirty l2 then Inr l2
                    else Inr (constructFrustums (cam_farPlane camera) l2))"
    using ty camera by (simp add: OnTick_def r_def l1_def Let_def)
  then have "OnTick ctx l = (if \<not> m_isDirty l2 then Inr l2
                    else Inr (constructFrustums (cam_farPlane camera) l2))"
    using l2(1) by simp
  then show ?thesis using l2(2-) by (simp add: constructFrustums_def)
qed

lemma OnTick_created:
  assumes c: "lightCreated l" and cam: "GetMainCamera ctx \<noteq> None"
  shows "\<exists>l'. OnTick ctx l = Inr l' \<and> lightCreated l'"
proof (cases "m_lightType l = LightType_Directional")
  case False
  then show ?thesis using c by (simp add: OnTick_def)
next
  case True
  obtain camera where camera: "GetMainCamera ctx = Some camera" using cam by auto
  from OnTick_directional[OF True camera] obtain l' where l': "OnTick ctx l = Inr l'"
    "m_shadowMaps l' = m_shadowMaps l" "length (m_frustums l') = length (m_frustums l)"
    "m_lightType l' = m_lightType l" "m_shadowMapCount l' = m_shadowMapCount l"
    "length (m_shadowMapsProjectionMatrix l') =
               (if m_lastPosCamera l \<noteq> cam_position camera then m_shadowMapCount l
                else length (m_shadowMapsProjectionMatrix l))" by blast
  have "lightCreated l'" using c True l'(2-) by (simp add: lightCreated_def)
  then show ?thesis using l'(1) by simp
qed

lemma applyOp_created:
  "lightCreated l \<Longrightarrow> tickHasCamera op \<Longrightarrow> \<exists>l'. applyOp op l = Inr l' \<and> lightCreated l'"
proof (cases op)
  case (Op_OnTick ctx)
  assume "lightCreated l" "tickHasCamera op"
  then show ?thesis using Op_OnTick OnTick_created[of l ctx] by simp
next
  case (Op_Move tr)
  assume "lightCreated l"
  then show ?thesis using Op_Move by (simp add: lightCreated_def)
next
  case (Op_SetLightType ctx ty)
  assume "lightCreated l"
  then have "lightCreated (ShadowMap_Create ctx True (l\<lparr> m_lightType := ty, m_isDirty := True \<rparr>))"
    by (intro Create_forced) (simp add: lightCreated_def)
  then show ?thesis using Op_SetLightType by (simp add: SetLightType_def)
next
  case (Op_OnInitialize ctx)
  assume "lightCreated l"
  then show ?thesis using Op_OnInitialize by (simp add: OnInitialize_def Create_created)
next
  case (Op_OnStart ctx)
  assume "lightCreated l"
  then show ?thesis using Op_OnStart by (simp add: OnStart_def Create_created)
next
  case (Op_SetCastShadows ctx b)
  assume "lightCreated l"
  then have "lightCreated (ShadowMap_Create ctx True (l\<lparr> m_castShadows := False \<rparr>))"
    "lightCreated (l\<lparr> m_castShadows := True \<rparr>)"
    by (simp_all add: Create_created lightCreated_castShadows)
  then show ?thesis using Op_SetCastShadows
    by (cases b) (simp_all add: SetCastShadows_def Let_def)
qed

lemma applyOp_fresh:
  "lightFresh l \<Longrightarrow> \<exists>l'. applyOp op l = Inr l' \<and> (if createsShadowMaps op then lightCreated l' else lightFresh l')"
proof (cases op)
  case (Op_OnTick ctx)
  assume "lightFresh l"
  then show ?thesis using Op_OnTick by (simp add: OnTick_fresh)
next
  case (Op_Move tr)
  assume "lightFresh l"
  then show ?thesis using Op_Move by (simp add: lightFresh_def)
next
  case (Op_SetLightType ctx ty)
  assume "lightFresh l"
  then have "lightCreated (ShadowMap_Create ctx True (l\<lparr> m_lightType := ty, m_isDirty := True \<rparr>))"
    by (intro Create_forced) (simp add: lightFresh_def)
  then show ?thesis using Op_SetLightType by (simp add: SetLightType_def)
next
  case (Op_OnInitialize ctx)
  assume "lightFresh l"
  then have "lightCreated (ShadowMap_Create ctx True l)"
    by (intro Create_forced) (simp add: lightFresh_def)
  then show ?thesis using Op_OnInitialize by (simp add: OnInitialize_def)
next
  case (Op_OnStart ctx)
  assume "lightFresh l"
  then show ?thesis using Op_OnStart by (simp add: OnStart_def Create_unforced)
next
  case (Op_SetCastShadows ctx b)
  assume "lightFresh l"
  then have "lightCreated (ShadowMap_Create ctx True (l\<lparr> m_castShadows := False \<rparr>))"
    "lightFresh (l\<lparr> m_castShadows := True \<rparr>)"
    by (simp_all add: Create_forced lightFresh_def)
  then show ?thesis using Op_SetCastShadows
    by (cases b) (simp_all add: SetCastShadows_def Let_def)
qed

lemma runOps_created:
  "lightCreated l \<Longrightarrow> list_all tickHasCamera ops \<Longrightarrow> \<exists>l'. runOps ops l = Inr l' \<and> lightCreated l'"
proof (induction ops arbitrary: l)
  case Nil
  then show ?case by simp
next
  case (Cons op ops)
  from applyOp_created[of l op] Cons.prems obtain l1 where l1: "applyOp op l = Inr l1" "lightCreated l1"
    by auto
  from Cons.IH[OF l1(2)] Cons.prems obtain l' where "runOps ops l1 = Inr l'" "lightCreated l'" by auto
  then show ?case using l1 by simp
qed

lemma runOps_fresh:
  "lightFresh l \<Longrightarrow> list_all tickHasCamera ops \<Longrightarrow> list_ex createsShadowMaps ops
     \<Longrightarrow> \<exists>l'. runOps ops l = Inr l' \<and> lightCreated l'"
proof (induction ops arbitrary: l)
  case Nil
  then show ?case by simp
next
  case (Cons op ops)
  from applyOp_fresh[OF Cons.prems(1), of op] obtain l1 where l1: "applyOp op l = Inr l1"
     "if createsShadowMaps op then lightCreated l1 else lightFresh l1" by blast
  show ?case
  proof (cases "createsShadowMaps op")
    case True
    then have "lightCreated l1" using l1 by simp
    from runOps_created[OF this, of ops] Cons.prems obtain l' where "runOps ops l1 = Inr l'" "lightCreated l'" by auto
    then show ?thesis using l1 by simp
  next
    case False
    then have f: "lightFresh l1" using l1 by simp
    from False Cons.prems have "list_ex createsShadowMaps ops" by simp
    from Cons.IH[OF f _ this] Cons.prems obtain l' where "runOps ops l1 = Inr l'" "lightCreated l'" by auto
    then show ?thesis using l1 by simp
  qed
qed

lemma SetLightType_lengths:
  "cascadeArrayLengths (SetLightType ctx ty l) =
     (length (m_shadowMapsProjectionMatrix l), shadowMapCountOf ty, shadowMapCountOf ty)"
  by (simp add: cascadeArrayLengths_def SetLightType_def ShadowMap_Create_def
      ShadowMap_Destroy_def Let_def)

lemma SetLightType_fields:
  "m_lightType (SetLightType ctx ty l) = ty
   \<and> m_shadowMapCount (SetLightType ctx ty l) = shadowMapCountOf ty
   \<and> m_lastPosCamera (SetLightType ctx ty l) = m_lastPosCamera l"
  by (simp add: SetLightType_def ShadowMap_Create_def ShadowMap_Destroy_def Let_def)

text \<open>
  Claim C5, as stated, fails for the projection matrices. Right after the light type is
  set to directional the projection array is empty while frustums and shadow maps have
  three entries; and after a tick has filled it with three matrices, switching the type to
  point leaves it at three while the other two arrays grow to six. (The triples are the
  lengths of the projection, frustum and shadow-map arrays.)
\<close>

theorem cascade_arrays_equal_length_counterexample:
  "map_sum id cascadeArrayLengths
     (runOps [Op_SetLightType exampleContext LightType_Directional] newLight) = Inr (0, 3, 3)
   \<and> map_sum id cascadeArrayLengths
       (runOps [Op_SetLightType exampleCameraContext LightType_Directional,
                Op_OnTick exampleCameraContext,
                Op_SetLightType exampleCameraContext LightType_Point] newLight) = Inr (3, 6, 6)"
proof -
  have new: "m_shadowMapsProjectionMatrix newLight = []"
    "m_lastPosCamera newLight = Vector3 0 0 0"
    by (simp_all add: newLight_def Light_new_def)
  have a: "cascadeArrayLengths (SetLightType exampleContext LightType_Directional newLight)
             = (0, 3, 3)"
    by (simp add: SetLightType_lengths new)
  define l1 where "l1 = SetLightType exampleCameraContext LightType_Directional newLight"
  have l1: "m_lightType l1 = LightType_Directional" "m_shadowMapCount l1 = 3"
    "m_lastPosCamera l1 = Vector3 0 0 0"
    by (simp_all add: l1_def SetLightType_fields new)
  have cam: "GetMainCamera exampleCameraContext =
               Some \<lparr> cam_position = Vector3 0 1 (- 5), cam_farPlane = 1000 \<rparr>"
    by (simp add: exampleCameraContext_def)
  from OnTick_directional[OF l1(1) cam] obtain l2 where
    l2: "OnTick exampleCameraContext l1 = Inr l2"
      "length (m_shadowMapsProjectionMatrix l2) = 3"
    using l1 by auto
  have b: "cascadeArrayLengths (SetLightType exampleCameraContext LightType_Point l2)
             = (3, 6, 6)"
    by (simp add: SetLightType_lengths l2)
  show ?thesis using a b l2(1) by (simp add: l1_def)
qed

text \<open>
  Claim C5, amended: start from a newly constructed light and run any sequence of
  operations (light-type assignment, \<^verbatim>\<open>OnInitialize\<close>, \<^verbatim>\<open>OnStart\<close>,
  \<^verbatim>\<open>SetCastShadows\<close>, \<^verbatim>\<open>OnTick\<close>, moves of the light) in which at least one operation
  creates the shadow maps and every tick finds a main camera. Then the run succeeds, the
  frustum array and the shadow-map array both have the length fixed by the light type
  (3 directional, 6 point, 1 spot), and the projection-matrix array has length 0 or 3.
\<close>

theorem cascade_arrays_after_any_run:
  assumes "list_all tickHasCamera ops" and "list_ex createsShadowMaps ops"
  shows "\<exists>l. runOps ops (Light_new tr cnt res vm lp lr lc) = Inr l
           \<and> length (m_frustums l) = shadowMapCountOf (m_lightType l)
           \<and> length (m_shadowMaps l) = shadowMapCountOf (m_lightType l)
           \<and> (length (m_shadowMapsProjectionMatrix l) = 0
               \<or> length (m_shadowMapsProjectionMatrix l) = 3)"
proof -
  have "lightFresh (Light_new tr cnt res vm lp lr lc)"
    by (simp add: lightFresh_def Light_new_def)
  from runOps_fresh[OF this assms] show ?thesis by (auto simp: lightCreated_def)
qed

theorem cascade_arrays_after_any_run_witness:
  "list_all tickHasCamera exampleOps \<and> list_ex createsShadowMaps exampleOps
   \<and> (\<exists>l. runOps exampleOps newLight = Inr l
           \<and> length (m_frustums l) = shadowMapCountOf (m_lightType l)
           \<and> length (m_shadowMaps l) = shadowMapCountOf (m_lightType l)
           \<and> (length (m_shadowMapsProjectionMatrix l) = 0
               \<or> length (m_shadowMapsProjectionMatrix l) = 3))"
proof -
  have h: "list_all tickHasCamera exampleOps" "list_ex createsShadowMaps exampleOps"
    by (simp_all add: exampleOps_def exampleCameraContext_def)
  show ?thesis
    using h cascade_arrays_after_any_run[OF h, of exampleTransform 0 0 Matrix_Identity
        "Vector3 0 0 0" "FromEulerAngles 0 0 0" "Vector3 0 0 0"]
    by (simp add: newLight_def)
qed

subsection \<open>Pitch clamp\<close>

text \<open>
  Claim C8: for every light whose transform pitch is non-positive (for example -10
  degrees), the pitch read after \<^verbatim>\<open>ClampRotation\<close> is 179 degrees; and for every light,
  whatever its pitch before, the pitch read after \<^verbatim>\<open>ClampRotation\<close> lies strictly
  between 0 and 180 degrees, so it is never left negative.
\<close>

theorem ClampRotation_pitch:
  "(v_x (ToEulerAngles (t_rotation (transform l))) \<le> 0 \<longrightarrow>
      v_x (ToEulerAngles (t_rotation (transform (ClampRotation l)))) = 179)
   \<and> 0 < v_x (ToEulerAngles (t_rotation (transform (ClampRotation l))))
   \<and> v_x (ToEulerAngles (t_rotation (transform (ClampRotation l)))) < 180"
  by (cases "t_rotation (transform l)") (simp add: ClampRotation_def Let_def)

theorem ClampRotation_pitch_witness:
  "v_x (ToEulerAngles (t_rotation (transform pitchedDownLight))) = - 10
   \<and> v_x (ToEulerAngles (t_rotation (transform (ClampRotation pitchedDownLight)))) = 179"
proof -
  have h: "v_x (ToEulerAngles (t_rotation (transform pitchedDownLight))) = - 10"
    by (simp add: pitchedDownLight_def)
  then have "v_x (ToEulerAngles (t_rotation (transform pitchedDownLight))) \<le> 0" by simp
  with ClampRotation_pitch[of pitchedDownLight] h show ?thesis by blast
qed

subsection \<open>Cast-shadows flag\<close>

text \<open>
  Claim C10: for every boolean \<open>v\<close>, \<^verbatim>\<open>SetCastShadows(v)\<close> leaves the stored flag equal
  to \<open>v\<close>. Called with true it changes nothing but the flag: shadow maps and frustums are
  the ones before the call and no render texture is created, whatever the flag was. Called
  with false it destroys and recreates the shadow maps (a forced \<^verbatim>\<open>ShadowMap_Create\<close>):
  the shadow maps are as many fresh textures as the light type's cascade count.
\<close>

theorem SetCastShadows_recreates_only_on_false:
  "m_castShadows (SetCastShadows ctx v l) = v
   \<and> SetCastShadows ctx True l = l\<lparr> m_castShadows := True \<rparr>
   \<and> m_shadowMaps (SetCastShadows ctx True l) = m_shadowMaps l
   \<and> m_frustums (SetCastShadows ctx True l) = m_frustums l
   \<and> texturesCreated (SetCastShadows ctx True l) = texturesCreated l
   \<and> SetCastShadows ctx False l = ShadowMap_Create ctx True (l\<lparr> m_castShadows := False \<rparr>)
   \<and> m_shadowMaps (SetCastShadows ctx False l) =
        replicate (shadowMapCountOf (m_lightType l))
          \<lparr> rt_width = Shadows_GetResolution ctx, rt_height = Shadows_GetResolution ctx \<rparr>
   \<and> texturesCreated (SetCastShadows ctx False l) =
        texturesCreated l + shadowMapCountOf (m_lightType l)"
  by (simp add: SetCastShadows_def ShadowMap_Create_def ShadowMap_Destroy_def Let_def)


section \<open>Properties of the pipeline state cache\<close>

lemma setState_twice: "snd (setState c v (snd (setState c v s))) = snd (setState c v s)"
  by (simp add: setState_def)

lemma setState_repeat:
  "((\<lambda>t. snd (setState c v t)) ^^ Suc n) s = snd (setState c v s)"
proof (induction n)
  case 0
  show ?case by simp
next
  case (Suc n)
  have "((\<lambda>t. snd (setState c v t)) ^^ Suc (Suc n)) s
          = snd (setState c v (((\<lambda>t. snd (setState c v t)) ^^ Suc n) s))" by simp
  also have "\<dots> = snd (setState c v (snd (setState c v s)))" by (simp only: Suc.IH)
  also have "\<dots> = snd (setState c v s)" by (rule setState_twice)
  finally show ?case .
qed

lemma bindCategories_effect:
  "distinct cs \<Longrightarrow>
     commits (snd (bindCategories accepts cs s)) =
       commits s @ map (\<lambda>c. (c, cached s c)) (filter (dirty s) cs)
     \<and> cached (snd (bindCategories accepts cs s)) = cached s
     \<and> (\<forall>c. dirty (snd (bindCategories accepts cs s)) c =
            (dirty s c \<and> \<not> (c \<in> set cs \<and> accepts c)))"
proof (induction cs arbitrary: s)
  case Nil
  show ?case by simp
next
  case (Cons c cs)
  then have d: "distinct cs" and n: "c \<notin> set cs" by simp_all
  show ?case
  proof (cases "dirty s c")
    case False
    then show ?thesis using Cons.IH[OF d, of s] n by auto
  next
    case True
    let ?s1 = "s\<lparr> commits := commits s @ [(c, cached s c)] \<rparr>"
    let ?s2 = "if accepts c then ?s1\<lparr> dirty := (dirty ?s1)(c := False) \<rparr> else ?s1"
    have f: "filter (dirty ?s2) cs = filter (dirty s) cs"
      using n by (intro filter_cong) auto
    have "snd (bindCategories accepts (c # cs) s) = snd (bindCategories accepts cs ?s2)"
      using True by (simp add: Let_def)
    then show ?thesis using Cons.IH[OF d, of ?s2] True n f by auto
  qed
qed

lemma count_bindOrder: "count_list (filter p bindOrder) c = (if p c then 1 else 0)"
  by (cases c) (simp_all add: bindOrder_def)

lemma issuedCommits_eq:
  "issuedCommits accepts s = map (\<lambda>c. (c, cached s c)) (filter (dirty s) bindOrder)"
proof -
  have "distinct bindOrder" by (simp add: bindOrder_def)
  from bindCategories_effect[OF this, of accepts s] show ?thesis
    by (simp add: issuedCommits_def Bind_def)
qed

text \<open>
  Claim C2: for every category \<open>c\<close> and value \<open>v\<close>, the second of two setter calls in a row
  with the same \<open>v\<close> leaves the whole state (so every dirty flag) as the first call left it;
  \<^verbatim>\<open>Bind\<close> issues exactly one device commit for each dirty category and none for a clean
  one, whether or not the device accepts the commits; and after any number \<open>n + 1\<close> of
  identical setter calls \<^verbatim>\<open>Bind\<close> issues the same commits as after one.
\<close>

theorem redundant_set_is_noop_and_bind_commits_once:
  "snd (setState c v (snd (setState c v s))) = snd (setState c v s)
   \<and> count_list (map fst (issuedCommits accepts s)) c' = (if dirty s c' then 1 else 0)
   \<and> issuedCommits accepts (((\<lambda>t. snd (setState c v t)) ^^ Suc n) s) =
       issuedCommits accepts (snd (setState c v s))"
proof -
  have "map fst (issuedCommits accepts s) = filter (dirty s) bindOrder"
    by (simp add: issuedCommits_eq comp_def)
  then have "count_list (map fst (issuedCommits accepts s)) c' = (if dirty s c' then 1 else 0)"
    by (simp only: count_bindOrder)
  moreover have "issuedCommits accepts (((\<lambda>t. snd (setState c v t)) ^^ Suc n) s) =
       issuedCommits accepts (snd (setState c v s))"
    by (simp only: setState_repeat)
  ultimately show ?thesis using setState_twice[of c v s] by blast
qed


section \<open>Properties of the renderer\<close>

subsection \<open>What a pass leaves alone\<close>

lemma passStep_refl: "passStep s s []"
  by (simp add: passStep_def)

lemma passStep_trans: "passStep s s' es \<Longrightarrow> passStep s' s'' fs \<Longrightarrow> passStep s s'' (es @ fs)"
  by (simp add: passStep_def)

lemma passStep_emit: "passStep s (emit e s) (if isPassLevel e then [e] else [])"
  by (simp add: passStep_def emit_def passTrace_def)

lemma passStep_emit_after:
  "passStep s s' es \<Longrightarrow> passStep s (emit e s') (es @ (if isPassLevel e then [e] else []))"
  by (rule passStep_trans[OF _ passStep_emit])

lemma depthObject_step:
  "hasRenderComponents g \<Longrightarrow> \<exists>s'. depthObject i g s = Inr s' \<and> passStep s s' []"
  using passStep_emit[of s "DepthShader_Render n w i" for n w]
  by (auto simp: depthObject_def hasRenderComponents_def passStep_refl Let_def split: option.splits)

lemma depthObjects_step:
  "list_all hasRenderComponents gs \<Longrightarrow> \<exists>s'. depthObjects i gs s = Inr s' \<and> passStep s s' []"
proof (induction gs arbitrary: s)
  case Nil
  show ?case by (simp add: passStep_refl)
next
  case (Cons g gs)
  from Cons.prems depthObject_step[of g i s] obtain s1 where
    s1: "depthObject i g s = Inr s1" "passStep s s1 []" by auto
  from Cons.prems Cons.IH[of s1] obtain s2 where
    s2: "depthObjects i gs s1 = Inr s2" "passStep s1 s2 []" by auto
  from passStep_trans[OF s1(2) s2(2)] s1(1) s2(1) show ?case by (simp add: andThen_def)
qed

lemma depthCascades_step:
  "list_all hasRenderComponents (m_renderables s) \<Longrightarrow>
     \<exists>s'. depthCascades i k s = Inr s' \<and> passStep s s' []"
proof (induction k arbitrary: i s)
  case 0
  show ?case by (simp add: passStep_refl)
next
  case (Suc k)
  let ?s0 = "emit (Light_SetShadowMapAsRenderTarget i) s"
  have e: "passStep s ?s0 []" using passStep_emit[of s "Light_SetShadowMapAsRenderTarget i"] by simp
  from Suc.prems depthObjects_step[of "m_renderables s" i ?s0] obtain s1 where
    s1: "depthObjects i (m_renderables s) ?s0 = Inr s1" "passStep ?s0 s1 []" by auto
  have p1: "passStep s s1 []" using passStep_trans[OF e s1(2)] by simp
  then have "m_renderables s1 = m_renderables s" by (simp add: passStep_def)
  with Suc.prems Suc.IH[of s1 "Suc i"] obtain s2 where
    s2: "depthCascades (Suc i) k s1 = Inr s2" "passStep s1 s2 []" by auto
  from passStep_trans[OF p1 s2(2)] s1(1) s2(1) show ?case by (simp add: andThen_def)
qed

lemma DirectionalLightDepthPass_step:
  assumes "list_all hasRenderComponents (m_renderables s)" and "m_directionalLight s \<noteq> None"
  shows "\<exists>s'. DirectionalLightDepthPass s = Inr s' \<and> passStep s s' [Enter P_ShadowDepth]"
proof -
  let ?s1 = "emit (Graphics_SetCullMode CullFront) (emit (Enter P_ShadowDepth) s)"
  have a: "passStep s ?s1 [Enter P_ShadowDepth]"
    using passStep_emit_after[OF passStep_emit[of s "Enter P_ShadowDepth"], of "Graphics_SetCullMode CullFront"]
    by simp
  then have r: "m_renderables ?s1 = m_renderables s" "m_directionalLight ?s1 = m_directionalLight s"
    by (simp_all add: passStep_def)
  from assms(2) obtain light where l: "m_directionalLight s = Some light" by auto
  from assms(1) r depthCascades_step[of ?s1 0 "sl_cascadeCount light"] obtain s' where
    s': "depthCascades 0 (sl_cascadeCount light) ?s1 = Inr s'" "passStep ?s1 s' []" by auto
  have "DirectionalLightDepthPass s = Inr s'"
    using l r s'(1) by (simp add: DirectionalLightDepthPass_def Let_def)
  with passStep_trans[OF a s'(2)] show ?thesis by simp
qed

lemma IsInViewFrustrum_step: "passStep s (snd (IsInViewFrustrum env c e s)) []"
  using passStep_emit[of "s\<lparr> m_frustrum := f \<rparr>" "Frustrum_ConstructFrustum r" for f r]
  by (auto simp: IsInViewFrustrum_def Let_def passStep_def)

lemma gbufferDraw_step: "passStep s (gbufferDraw sh cm g mf mesh mr mat s) []"
  by (simp add: gbufferDraw_def Let_def passStep_def emit_def passTrace_def)

lemma gbufferObject_step:
  assumes "hasRenderComponents g"
  shows "\<exists>s'. gbufferObject env sh cm g s = Inr s' \<and> passStep s s' []"
proof -
  from assms obtain mf mr where c: "go_meshFilter g = Some mf" "go_meshRenderer g = Some mr"
    by (auto simp: hasRenderComponents_def)
  obtain b s1 where v: "IsInViewFrustrum env (mf_center mf) (mf_boundingBox mf) s = (b, s1)"
    by (cases "IsInViewFrustrum env (mf_center mf) (mf_boundingBox mf) s")
  have p1: "passStep s s1 []"
    using IsInViewFrustrum_step[of s env "mf_center mf" "mf_boundingBox mf"] v by simp
  have p2: "passStep s (gbufferDraw sh cm g mf mesh mr mat s1) []" for mesh mat
    using passStep_trans[OF p1 gbufferDraw_step[of s1 sh cm g mf mesh mr mat]] by simp
  show ?thesis
    using c v p1 p2
    by (auto simp: gbufferObject_def passStep_refl split: option.splits bool.splits)
qed

lemma gbufferObjects_step:
  "list_all hasRenderComponents gs \<Longrightarrow>
     \<exists>s'. gbufferObjects env sh cm gs s = Inr s' \<and> passStep s s' []"
proof (induction gs arbitrary: s)
  case Nil
  show ?case by (simp add: passStep_refl)
next
  case (Cons g gs)
  from Cons.prems gbufferObject_step[of g env sh cm s] obtain s1 where
    s1: "gbufferObject env sh cm g s = Inr s1" "passStep s s1 []" by auto
  from Cons.prems Cons.IH[of s1] obtain s2 where
    s2: "gbufferObjects env sh cm gs s1 = Inr s2" "passStep s1 s2 []" by auto
  from passStep_trans[OF s1(2) s2(2)] s1(1) s2(1) show ?case by (simp add: andThen_def)
qed

lemma gbufferMaterial_step:
  assumes "list_all hasRenderComponents (m_renderables s)"
  shows "\<exists>s'. gbufferMaterial env sh cm s = Inr s' \<and> passStep s s' []"
proof (cases "mat_shaderID cm \<noteq> sh")
  case True
  then show ?thesis by (simp add: gbufferMaterial_def passStep_refl)
next
  case False
  let ?s1 = "s\<lparr> m_textures := m_textures s @ materialTextures cm
                                    @ lightTextures (m_directionalLight s) \<rparr>"
  let ?s2 = "emit (Shader_SetResources sh (m_textures ?s1)) ?s1"
  have a: "passStep s ?s2 []" by (simp add: passStep_def emit_def passTrace_def)
  then have "m_renderables ?s2 = m_renderables s" by (simp add: passStep_def)
  with assms gbufferObjects_step[of "m_renderables ?s2" env sh cm ?s2] obtain s3 where
    s3: "gbufferObjects env sh cm (m_renderables ?s2) ?s2 = Inr s3" "passStep ?s2 s3 []" by auto
  have b: "passStep s3 (s3\<lparr> m_textures := [] \<rparr>) []" by (simp add: passStep_def)
  have "gbufferMaterial env sh cm s = Inr (s3\<lparr> m_textures := [] \<rparr>)"
    using False s3(1) by (simp add: gbufferMaterial_def Let_def andThen_def)
  with passStep_trans[OF passStep_trans[OF a s3(2)] b] show ?thesis by simp
qed

lemma gbufferMaterials_step:
  "list_all hasRenderComponents (m_renderables s) \<Longrightarrow>
     \<exists>s'. gbufferMaterials env sh ms s = Inr s' \<and> passStep s s' []"
proof (induction ms arbitrary: s)
  case Nil
  show ?case by (simp add: passStep_refl)
next
  case (Cons m ms)
  from Cons.prems gbufferMaterial_step[of s env sh m] obtain s1 where
    s1: "gbufferMaterial env sh m s = Inr s1" "passStep s s1 []" by auto
  then have "m_renderables s1 = m_renderables s" by (simp add: passStep_def)
  with Cons.prems Cons.IH[of s1] obtain s2 where
    s2: "gbufferMaterials env sh ms s1 = Inr s2" "passStep s1 s2 []" by auto
  from passStep_trans[OF s1(2) s2(2)] s1(1) s2(1) show ?case by (simp add: andThen_def)
qed

lemma gbufferShaders_step:
  "list_all hasRenderComponents (m_renderables s) \<Longrightarrow>
     \<exists>s'. gbufferShaders env shs s = Inr s' \<and> passStep s s' []"
proof (induction shs arbitrary: s)
  case Nil
  show ?case by (simp add: passStep_refl)
next
  case (Cons sh shs)
  let ?s0 = "emit (Shader_Set sh) s"
  have e: "passStep s ?s0 []" using passStep_emit[of s "Shader_Set sh"] by simp
  then have "m_renderables ?s0 = m_renderables s" by (simp add: passStep_def)
  with Cons.prems gbufferMaterials_step[of ?s0 env sh "materialPool_GetAllMaterials env"]
  obtain s1 where
    s1: "gbufferMaterials env sh (materialPool_GetAllMaterials env) ?s0 = Inr s1"
      "passStep ?s0 s1 []" by auto
  have p1: "passStep s s1 []" using passStep_trans[OF e s1(2)] by simp
  then have "m_renderables s1 = m_renderables s" by (simp add: passStep_def)
  with Cons.prems Cons.IH[of s1] obtain s2 where
    s2: "gbufferShaders env shs s1 = Inr s2" "passStep s1 s2 []" by auto
  from passStep_trans[OF p1 s2(2)] s1(1) s2(1) show ?case by (simp add: andThen_def)
qed

lemma GBufferPass_step:
  assumes "list_all hasRenderComponents (m_renderables s)"
  shows "\<exists>s'. GBufferPass env s = Inr s' \<and> passStep s s' [Enter P_GBuffer]"
proof -
  let ?s0 = "emit (Enter P_GBuffer) s"
  have e: "passStep s ?s0 [Enter P_GBuffer]" using passStep_emit[of s "Enter P_GBuffer"] by simp
  then have "m_renderables ?s0 = m_renderables s" by (simp add: passStep_def)
  with assms gbufferShaders_step[of ?s0 env "shaderPool_GetAllShaders env"] obtain s1 where
    s1: "gbufferShaders env (shaderPool_GetAllShaders env) ?s0 = Inr s1" "passStep ?s0 s1 []"
    by auto
  from passStep_trans[OF e s1(2)] s1(1) show ?thesis by (simp add: GBufferPass_def)
qed

lemma DeferredPass_step: "passStep s (DeferredPass env s) [Enter P_Deferred]"
  by (simp add: DeferredPass_def Let_def Ping_def passStep_def emit_def passTrace_def)

lemma PostProcessing_step:
  assumes "m_camera s = Some cam"
  shows "\<exists>s'. PostProcessing s = Inr s'
           \<and> passStep s s' [Enter P_PostProcess, Graphics_Clear (cam_clearColor cam)]"
  using assms
  by (simp add: PostProcessing_def Let_def Pong_def passStep_def emit_def passTrace_def)

lemma Gizmos_step:
  assumes "m_camera s = Some cam"
  shows "\<exists>s'. Gizmos env s = Inr s' \<and> passStep s s' [Enter P_Debug]"
  using assms
  by (auto simp add: Gizmos_def Let_def passStep_def emit_def passTrace_def split: option.splits)

subsection \<open>Order of the passes\<close>

lemma AcquirePrerequisites_no_camera:
  assumes "scene_GetMainCamera env = None"
  shows "AcquirePrerequisites env s =
           Inr ((emit (Enter P_AcquirePrerequisites) s)
                  \<lparr> m_camera := None, m_skybox := None, m_lineRenderer := None,
                    m_directionalLight := None \<rparr>)"
  using assms by (simp add: AcquirePrerequisites_def Let_def)

lemma acquireDirectionalLight_result:
  "m_directionalLight (acquireDirectionalLight s) =
     (case m_lightsDirectional s of [] \<Rightarrow> None | g # gs \<Rightarrow> go_light g)"
  by (cases "m_lightsDirectional s") (simp_all add: acquireDirectionalLight_def)

lemma AcquirePrerequisites_camera:
  assumes "scene_GetMainCamera env = Some camera" and "go_camera camera = Some cam"
  shows "\<exists>s'. AcquirePrerequisites env s = Inr s'
           \<and> m_camera s' = Some cam
           \<and> m_renderables s' = m_renderables s
           \<and> m_meshesRendered s' = m_meshesRendered s
           \<and> m_renderedMeshesCount s' = m_renderedMeshesCount s
           \<and> m_directionalLight s' =
               (case m_lightsDirectional s of [] \<Rightarrow> None | g # gs \<Rightarrow> go_light g)
           \<and> calls s' = calls s @ [Enter P_AcquirePrerequisites]"
proof -
  let ?s1 = "acquireSkybox env ((emit (Enter P_AcquirePrerequisites) s)\<lparr> m_camera := go_camera camera \<rparr>)"
  have s1: "m_camera ?s1 = Some cam" "m_renderables ?s1 = m_renderables s"
    "m_lightsDirectional ?s1 = m_lightsDirectional s"
    "calls ?s1 = calls s @ [Enter P_AcquirePrerequisites]"
    "m_meshesRendered ?s1 = m_meshesRendered s"
    "m_renderedMeshesCount ?s1 = m_renderedMeshesCount s"
    using assms(2) by (simp_all add: acquireSkybox_def emit_def split: option.splits)
  let ?s2 = "acquireDirectionalLight ?s1"
  have s2: "m_camera ?s2 = Some cam" "m_renderables ?s2 = m_renderables s"
    "calls ?s2 = calls s @ [Enter P_AcquirePrerequisites]"
    "m_meshesRendered ?s2 = m_meshesRendered s"
    "m_renderedMeshesCount ?s2 = m_renderedMeshesCount s"
    using s1 by (simp_all add: acquireDirectionalLight_def)
  have d: "m_directionalLight ?s2 =
             (case m_lightsDirectional s of [] \<Rightarrow> None | g # gs \<Rightarrow> go_light g)"
    using acquireDirectionalLight_result[of ?s1] s1(3) by simp
  have "AcquirePrerequisites env s = acquireCameraMatrices ?s2"
    using assms(1) by (simp add: AcquirePrerequisites_def Let_def)
  then show ?thesis using s2 d by (simp add: acquireCameraMatrices_def)
qed

lemma renderShadows_step:
  assumes "list_all hasRenderComponents (m_renderables s)"
  shows "\<exists>s'. renderShadows s = Inr s'
           \<and> passStep s s'
                (if (case m_directionalLight s of None \<Rightarrow> False
                     | Some light \<Rightarrow> sl_shadowType light \<noteq> No_Shadows)
                 then [Enter P_ShadowDepth] else [])"
proof (cases "m_directionalLight s")
  case None
  then show ?thesis by (simp add: renderShadows_def passStep_refl)
next
  case (Some light)
  show ?thesis
  proof (cases "sl_shadowType light \<noteq> No_Shadows")
    case False
    then show ?thesis using Some by (simp add: renderShadows_def passStep_refl)
  next
    case True
    from DirectionalLightDepthPass_step[OF assms, of ] Some obtain s' where
      "DirectionalLightDepthPass s = Inr s'" "passStep s s' [Enter P_ShadowDepth]" by auto
    then show ?thesis using Some True by (simp add: renderShadows_def)
  qed
qed

lemma renderGizmos_step:
  assumes "m_camera s = Some cam"
  shows "\<exists>s'. renderGizmos env s = Inr s'
           \<and> passStep s s' (if engineMode env = Editor_Idle then [Enter P_Debug] else [])"
  using Gizmos_step[OF assms, of env] by (simp add: renderGizmos_def passStep_refl)

lemma renderFrame_step:
  assumes cam: "m_camera s = Some cam" and wf: "list_all hasRenderComponents (m_renderables s)"
  shows "\<exists>s'. renderFrame env cam s = Inr s'
           \<and> passTrace (calls s') = passTrace (calls s)
               @ (if (case m_directionalLight s of None \<Rightarrow> False
                      | Some light \<Rightarrow> sl_shadowType light \<noteq> No_Shadows)
                  then [Enter P_ShadowDepth] else [])
               @ [Enter P_GBuffer, Enter P_Deferred, Enter P_PostProcess,
                  Graphics_Clear (cam_clearColor cam)]
               @ (if engineMode env = Editor_Idle then [Enter P_Debug] else [])
               @ [Graphics_Present]"
proof -
  let ?sh = "if (case m_directionalLight s of None \<Rightarrow> False
                      | Some light \<Rightarrow> sl_shadowType light \<noteq> No_Shadows)
                  then [Enter P_ShadowDepth] else []"
  let ?dbg = "if engineMode env = Editor_Idle then [Enter P_Debug] else []"
  let ?a = "emit (Graphics_EnableZBuffer True) s"
  have pa: "passStep s ?a []" using passStep_emit[of s "Graphics_EnableZBuffer True"] by simp
  then have a: "m_renderables ?a = m_renderables s" "m_directionalLight ?a = m_directionalLight s"
    by (simp_all add: passStep_def)
  from renderShadows_step[of ?a] wf a obtain s1 where
    s1: "renderShadows ?a = Inr s1" "passStep ?a s1 ?sh" by auto
  have p1: "passStep s s1 ?sh" using passStep_trans[OF pa s1(2)] by simp
  let ?b = "emit (GBuffer_Clear (cam_clearColor cam)) (emit GBuffer_SetRenderTargets s1)"
  have pb: "passStep s1 ?b []"
    using passStep_emit_after[OF passStep_emit[of s1 GBuffer_SetRenderTargets],
        of "GBuffer_Clear (cam_clearColor cam)"] by simp
  have "m_renderables ?b = m_renderables s" using p1 pb by (simp add: passStep_def)
  with wf GBufferPass_step[of ?b env] obtain s2 where
    s2: "GBufferPass env ?b = Inr s2" "passStep ?b s2 [Enter P_GBuffer]" by auto
  have p2: "passStep s s2 (?sh @ [Enter P_GBuffer])"
    using passStep_trans[OF passStep_trans[OF p1 pb] s2(2)] by simp
  let ?c = "emit FullScreenQuad_SetBuffers (emit (Graphics_EnableZBuffer False) s2)"
  have pc: "passStep s2 ?c []"
    using passStep_emit_after[OF passStep_emit[of s2 "Graphics_EnableZBuffer False"],
        of FullScreenQuad_SetBuffers] by simp
  let ?d = "DeferredPass env ?c"
  have pd: "passStep s ?d (?sh @ [Enter P_GBuffer, Enter P_Deferred])"
    using passStep_trans[OF passStep_trans[OF p2 pc] DeferredPass_step[of ?c env]] by simp
  then have "m_camera ?d = Some cam" using cam by (simp add: passStep_def)
  from PostProcessing_step[OF this] obtain s3 where
    s3: "PostProcessing ?d = Inr s3"
      "passStep ?d s3 [Enter P_PostProcess, Graphics_Clear (cam_clearColor cam)]" by auto
  have p3: "passStep s s3 (?sh @ [Enter P_GBuffer, Enter P_Deferred, Enter P_PostProcess,
                Graphics_Clear (cam_clearColor cam)])"
    using passStep_trans[OF pd s3(2)] by simp
  then have "m_camera s3 = Some cam" using cam by (simp add: passStep_def)
  from renderGizmos_step[OF this, of env] obtain s4 where
    s4: "renderGizmos env s3 = Inr s4" "passStep s3 s4 ?dbg" by auto
  have p4: "passStep s s4 (?sh @ [Enter P_GBuffer, Enter P_Deferred, Enter P_PostProcess,
                Graphics_Clear (cam_clearColor cam)] @ ?dbg)"
    using passStep_trans[OF p3 s4(2)] by simp
  let ?e = "emit Signal_RenderEnd (StopCalculatingStats (emit Graphics_Present s4))"
  have e: "passTrace (calls ?e) = passTrace (calls s4) @ [Graphics_Present]"
    by (simp add: emit_def StopCalculatingStats_def passTrace_def)
  have q4: "passTrace (calls s4) = passTrace (calls s) @ (?sh @ [Enter P_GBuffer, Enter P_Deferred,
       Enter P_PostProcess, Graphics_Clear (cam_clearColor cam)] @ ?dbg)"
    using p4 by (simp add: passStep_def)
  have "renderFrame env cam s = Inr ?e"
    using s1(1) s2(1) s3(1) s4(1) by (simp add: renderFrame_def andThen_def)
  then show ?thesis using e q4 by simp
qed

lemma Render_returns:
  assumes wf: "frameWellFormed env s"
  shows "\<exists>s'. Render env s = Inr s' \<and>
     (case scene_GetMainCamera env of
        None \<Rightarrow>
          calls s' = calls s @ [Signal_RenderStart, Enter P_AcquirePrerequisites,
                                Graphics_Clear (Vector4 0 0 0 1), Graphics_Present]
      | Some camera \<Rightarrow>
          (case go_camera camera of
             None \<Rightarrow> False
           | Some cam \<Rightarrow>
               if m_renderables s = []
               then calls s' = calls s @ [Signal_RenderStart, Enter P_AcquirePrerequisites,
                                          Graphics_Clear (cam_clearColor cam), Graphics_Present]
               else passTrace (calls s') = passTrace (calls s)
                      @ [Enter P_AcquirePrerequisites]
                      @ (if shadowsDue s then [Enter P_ShadowDepth] else [])
                      @ [Enter P_GBuffer, Enter P_Deferred, Enter P_PostProcess,
                         Graphics_Clear (cam_clearColor cam)]
                      @ (if engineMode env = Editor_Idle then [Enter P_Debug] else [])
                      @ [Graphics_Present]))"
proof (cases "scene_GetMainCamera env")
  case None
  let ?s0 = "StartCalculatingStats (emit Signal_RenderStart s)"
  have "calls ?s0 = calls s @ [Signal_RenderStart]"
    by (simp add: StartCalculatingStats_def emit_def)
  then show ?thesis
    using None AcquirePrerequisites_no_camera[OF None, of ?s0]
    by (simp add: Render_def andThen_def emit_def)
next
  case (Some camera)
  with wf obtain cam where cam: "go_camera camera = Some cam"
    by (auto simp: frameWellFormed_def)
  let ?s0 = "StartCalculatingStats (emit Signal_RenderStart s)"
  have s0: "calls ?s0 = calls s @ [Signal_RenderStart]" "m_renderables ?s0 = m_renderables s"
    "m_lightsDirectional ?s0 = m_lightsDirectional s"
    by (simp_all add: StartCalculatingStats_def emit_def)
  from AcquirePrerequisites_camera[OF Some cam, of ?s0] s0 obtain s1 where
    s1: "AcquirePrerequisites env ?s0 = Inr s1" "m_camera s1 = Some cam"
      "m_renderables s1 = m_renderables s"
      "m_directionalLight s1 = (case m_lightsDirectional s of [] \<Rightarrow> None | g # gs \<Rightarrow> go_light g)"
      "calls s1 = calls s @ [Signal_RenderStart, Enter P_AcquirePrerequisites]"
    by auto
  show ?thesis
  proof (cases "m_renderables s = []")
    case True
    then show ?thesis using Some cam s1
      by (simp add: Render_def andThen_def emit_def)
  next
    case False
    have wf1: "list_all hasRenderComponents (m_renderables s1)"
      using wf s1(3) by (simp add: frameWellFormed_def)
    have sd: "(case m_directionalLight s1 of None \<Rightarrow> False
               | Some light \<Rightarrow> sl_shadowType light \<noteq> No_Shadows) = shadowsDue s"
      using s1(4) by (simp add: shadowsDue_def split: list.splits)
    have pt: "passTrace (calls s1) = passTrace (calls s) @ [Enter P_AcquirePrerequisites]"
      using s1(5) by (simp add: passTrace_def)
    from renderFrame_step[OF s1(2) wf1, of env] obtain s' where
      s': "renderFrame env cam s1 = Inr s'"
        "passTrace (calls s') = passTrace (calls s1)
               @ (if (case m_directionalLight s1 of None \<Rightarrow> False
                      | Some light \<Rightarrow> sl_shadowType light \<noteq> No_Shadows)
                  then [Enter P_ShadowDepth] else [])
               @ [Enter P_GBuffer, Enter P_Deferred, Enter P_PostProcess,
                  Graphics_Clear (cam_clearColor cam)]
               @ (if engineMode env = Editor_Idle then [Enter P_Debug] else [])
               @ [Graphics_Present]" by blast
    have "Render env s = Inr s'"
      using s1(1,2,3) False s'(1) by (simp add: Render_def andThen_def)
    then show ?thesis using Some cam False s'(2) sd pt by simp
  qed
qed

lemma andThen_InrE:
  assumes "andThen r f = Inr b"
  obtains a where "r = Inr a" and "f a = Inr b"
  using assms by (cases r) (simp_all add: andThen_def)

lemma depthObject_ret: "depthObject i g s = Inr s' \<Longrightarrow> passStep s s' []"
  using passStep_emit[of s "DepthShader_Render n w i" for n w]
  by (auto simp: depthObject_def passStep_refl Let_def split: option.splits if_splits)

lemma depthObjects_ret: "depthObjects i gs s = Inr s' \<Longrightarrow> passStep s s' []"
proof (induction gs arbitrary: s)
  case Nil
  then show ?case by (simp add: passStep_refl)
next
  case (Cons g gs)
  from Cons.prems obtain s1 where s1: "depthObject i g s = Inr s1" "depthObjects i gs s1 = Inr s'"
    by (auto elim: andThen_InrE)
  from passStep_trans[OF depthObject_ret[OF s1(1)] Cons.IH[OF s1(2)]] show ?case by simp
qed

lemma depthCascades_ret: "depthCascades i k s = Inr s' \<Longrightarrow> passStep s s' []"
proof (induction k arbitrary: i s)
  case 0
  then show ?case by (simp add: passStep_refl)
next
  case (Suc k)
  let ?s0 = "emit (Light_SetShadowMapAsRenderTarget i) s"
  have e: "passStep s ?s0 []" using passStep_emit[of s "Light_SetShadowMapAsRenderTarget i"] by simp
  from Suc.prems obtain s1 where s1: "depthObjects i (m_renderables s) ?s0 = Inr s1"
    "depthCascades (Suc i) k s1 = Inr s'"
    by (auto elim: andThen_InrE)
  from passStep_trans[OF passStep_trans[OF e depthObjects_ret[OF s1(1)]] Suc.IH[OF s1(2)]]
  show ?case by simp
qed

lemma DirectionalLightDepthPass_ret:
  assumes "DirectionalLightDepthPass s = Inr s'"
  shows "passStep s s' [Enter P_ShadowDepth]"
proof -
  let ?s1 = "emit (Graphics_SetCullMode CullFront) (emit (Enter P_ShadowDepth) s)"
  have a: "passStep s ?s1 [Enter P_ShadowDepth]"
    using passStep_emit_after[OF passStep_emit[of s "Enter P_ShadowDepth"],
        of "Graphics_SetCullMode CullFront"] by simp
  show ?thesis
  proof (cases "m_directionalLight ?s1")
    case None
    then show ?thesis using assms by (simp add: DirectionalLightDepthPass_def Let_def)
  next
    case (Some light)
    then have "depthCascades 0 (sl_cascadeCount light) ?s1 = Inr s'"
      using assms by (simp add: DirectionalLightDepthPass_def Let_def)
    from passStep_trans[OF a depthCascades_ret[OF this]] show ?thesis by simp
  qed
qed

lemma gbufferObject_ret:
  assumes "gbufferObject env sh cm g s = Inr s'"
  shows "passStep s s' []"
proof -
  have p2: "passStep s (gbufferDraw sh cm g mf mesh mr mat (snd (IsInViewFrustrum env c e s))) []"
    for mf mesh mr mat c e
    using passStep_trans[OF IsInViewFrustrum_step[of s env c e]
        gbufferDraw_step[of "snd (IsInViewFrustrum env c e s)" sh cm g mf mesh mr mat]] by simp
  have p1: "IsInViewFrustrum env c e s = (b, s1) \<Longrightarrow> passStep s s1 []" for c e b s1
    using IsInViewFrustrum_step[of s env c e] by simp
  have p3: "IsInViewFrustrum env c e s = (b, s1) \<Longrightarrow>
     passStep s (gbufferDraw sh cm g mf mesh mr mat s1) []" for c e b s1 mf mesh mr mat
    using p2[of mf mesh mr mat c e] by simp
  show ?thesis
    using assms p1 p3
    by (auto simp: gbufferObject_def passStep_refl split: option.splits bool.splits if_splits prod.splits)
qed

lemma gbufferObjects_ret: "gbufferObjects env sh cm gs s = Inr s' \<Longrightarrow> passStep s s' []"
proof (induction gs arbitrary: s)
  case Nil
  then show ?case by (simp add: passStep_refl)
next
  case (Cons g gs)
  from Cons.prems obtain s1 where s1: "gbufferObject env sh cm g s = Inr s1"
    "gbufferObjects env sh cm gs s1 = Inr s'"
    by (auto elim: andThen_InrE)
  from passStep_trans[OF gbufferObject_ret[OF s1(1)] Cons.IH[OF s1(2)]] show ?case by simp
qed

lemma gbufferMaterial_ret:
  assumes "gbufferMaterial env sh cm s = Inr s'"
  shows "passStep s s' []"
proof (cases "mat_shaderID cm \<noteq> sh")
  case True
  then show ?thesis using assms by (simp add: gbufferMaterial_def passStep_refl)
next
  case False
  let ?s1 = "s\<lparr> m_textures := m_textures s @ materialTextures cm
                                    @ lightTextures (m_directionalLight s) \<rparr>"
  let ?s2 = "emit (Shader_SetResources sh (m_textures ?s1)) ?s1"
  have a: "passStep s ?s2 []" by (simp add: passStep_def emit_def passTrace_def)
  from assms False obtain s3 where
    s3: "gbufferObjects env sh cm (m_renderables ?s2) ?s2 = Inr s3" "s' = s3\<lparr> m_textures := [] \<rparr>"
    by (auto simp: gbufferMaterial_def Let_def elim!: andThen_InrE)
  have b: "passStep s3 (s3\<lparr> m_textures := [] \<rparr>) []" by (simp add: passStep_def)
  from passStep_trans[OF passStep_trans[OF a gbufferObjects_ret[OF s3(1)]] b] s3(2)
  show ?thesis by simp
qed

lemma gbufferMaterials_ret: "gbufferMaterials env sh ms s = Inr s' \<Longrightarrow> passStep s s' []"
proof (induction ms arbitrary: s)
  case Nil
  then show ?case by (simp add: passStep_refl)
next
  case (Cons m ms)
  from Cons.prems obtain s1 where s1: "gbufferMaterial env sh m s = Inr s1"
    "gbufferMaterials env sh ms s1 = Inr s'"
    by (auto elim: andThen_InrE)
  from passStep_trans[OF gbufferMaterial_ret[OF s1(1)] Cons.IH[OF s1(2)]] show ?case by simp
qed

lemma gbufferShaders_ret: "gbufferShaders env shs s = Inr s' \<Longrightarrow> passStep s s' []"
proof (induction shs arbitrary: s)
  case Nil
  then show ?case by (simp add: passStep_refl)
next
  case (Cons sh shs)
  let ?s0 = "emit (Shader_Set sh) s"
  have e: "passStep s ?s0 []" using passStep_emit[of s "Shader_Set sh"] by simp
  from Cons.prems obtain s1 where
    s1: "gbufferMaterials env sh (materialPool_GetAllMaterials env) ?s0 = Inr s1"
      "gbufferShaders env shs s1 = Inr s'"
    by (auto elim: andThen_InrE)
  from passStep_trans[OF passStep_trans[OF e gbufferMaterials_ret[OF s1(1)]] Cons.IH[OF s1(2)]]
  show ?case by simp
qed

lemma GBufferPass_ret:
  assumes "GBufferPass env s = Inr s'"
  shows "passStep s s' [Enter P_GBuffer]"
proof -
  have e: "passStep s (emit (Enter P_GBuffer) s) [Enter P_GBuffer]"
    using passStep_emit[of s "Enter P_GBuffer"] by simp
  from assms have "gbufferShaders env (shaderPool_GetAllShaders env) (emit (Enter P_GBuffer) s) = Inr s'"
    by (simp add: GBufferPass_def)
  from passStep_trans[OF e gbufferShaders_ret[OF this]] show ?thesis by simp
qed

lemma renderShadows_ret:
  assumes "renderShadows s = Inr s'"
  shows "passStep s s'
                (if (case m_directionalLight s of None \<Rightarrow> False
                     | Some light \<Rightarrow> sl_shadowType light \<noteq> No_Shadows)
                 then [Enter P_ShadowDepth] else [])"
  using assms DirectionalLightDepthPass_ret[of s s']
  by (auto simp: renderShadows_def passStep_refl split: option.splits if_splits)

lemma PostProcessing_ret:
  assumes "PostProcessing s = Inr s'" and "m_camera s = Some cam"
  shows "passStep s s' [Enter P_PostProcess, Graphics_Clear (cam_clearColor cam)]"
  using assms PostProcessing_step[OF assms(2)] by auto

lemma Gizmos_ret:
  assumes "Gizmos env s = Inr s'" and "m_camera s = Some cam"
  shows "passStep s s' [Enter P_Debug]"
  using assms Gizmos_step[OF assms(2), of env] by auto

lemma renderGizmos_ret:
  assumes "renderGizmos env s = Inr s'" and "m_camera s = Some cam"
  shows "passStep s s' (if engineMode env = Editor_Idle then [Enter P_Debug] else [])"
  using assms renderGizmos_step[OF assms(2), of env] by auto

lemma renderFrame_ret:
  assumes r: "renderFrame env cam s = Inr s'" and cam: "m_camera s = Some cam"
  shows "passTrace (calls s') = passTrace (calls s)
               @ (if (case m_directionalLight s of None \<Rightarrow> False
                      | Some light \<Rightarrow> sl_shadowType light \<noteq> No_Shadows)
                  then [Enter P_ShadowDepth] else [])
               @ [Enter P_GBuffer, Enter P_Deferred, Enter P_PostProcess,
                  Graphics_Clear (cam_clearColor cam)]
               @ (if engineMode env = Editor_Idle then [Enter P_Debug] else [])
               @ [Graphics_Present]"
proof -
  let ?sh = "if (case m_directionalLight s of None \<Rightarrow> False
                      | Some light \<Rightarrow> sl_shadowType light \<noteq> No_Shadows)
                  then [Enter P_ShadowDepth] else []"
  let ?dbg = "if engineMode env = Editor_Idle then [Enter P_Debug] else []"
  let ?a = "emit (Graphics_EnableZBuffer True) s"
  have pa: "passStep s ?a []" using passStep_emit[of s "Graphics_EnableZBuffer True"] by simp
  then have a: "m_directionalLight ?a = m_directionalLight s" by (simp add: passStep_def)
  from r obtain s1 where s1: "renderShadows ?a = Inr s1"
    and r1: "andThen (GBufferPass env
                (emit (GBuffer_Clear (cam_clearColor cam)) (emit GBuffer_SetRenderTargets s1))) (\<lambda>s2.
     andThen (PostProcessing
                (DeferredPass env
                   (emit FullScreenQuad_SetBuffers (emit (Graphics_EnableZBuffer False) s2)))) (\<lambda>s3.
     andThen (renderGizmos env s3) (\<lambda>s4.
     Inr (emit Signal_RenderEnd (StopCalculatingStats (emit Graphics_Present s4)))))) = Inr s'"
    unfolding renderFrame_def by (erule andThen_InrE)
  have p1: "passStep s s1 ?sh"
    using passStep_trans[OF pa renderShadows_ret[OF s1]] a by simp
  let ?b = "emit (GBuffer_Clear (cam_clearColor cam)) (emit GBuffer_SetRenderTargets s1)"
  have pb: "passStep s1 ?b []"
    using passStep_emit_after[OF passStep_emit[of s1 GBuffer_SetRenderTargets],
        of "GBuffer_Clear (cam_clearColor cam)"] by simp
  from r1 obtain s2 where s2: "GBufferPass env ?b = Inr s2"
    and r2: "andThen (PostProcessing
                (DeferredPass env
                   (emit FullScreenQuad_SetBuffers (emit (Graphics_EnableZBuffer False) s2)))) (\<lambda>s3.
     andThen (renderGizmos env s3) (\<lambda>s4.
     Inr (emit Signal_RenderEnd (StopCalculatingStats (emit Graphics_Present s4))))) = Inr s'"
    by (erule andThen_InrE)
  have p2: "passStep s s2 (?sh @ [Enter P_GBuffer])"
    using passStep_trans[OF passStep_trans[OF p1 pb] GBufferPass_ret[OF s2]] by simp
  let ?c = "emit FullScreenQuad_SetBuffers (emit (Graphics_EnableZBuffer False) s2)"
  have pc: "passStep s2 ?c []"
    using passStep_emit_after[OF passStep_emit[of s2 "Graphics_EnableZBuffer False"],
        of FullScreenQuad_SetBuffers] by simp
  let ?d = "DeferredPass env ?c"
  have pd: "passStep s ?d (?sh @ [Enter P_GBuffer, Enter P_Deferred])"
    using passStep_trans[OF passStep_trans[OF p2 pc] DeferredPass_step[of ?c env]] by simp
  then have cd: "m_camera ?d = Some cam" using cam by (simp add: passStep_def)
  from r2 obtain s3 where s3: "PostProcessing ?d = Inr s3"
    and r3: "andThen (renderGizmos env s3) (\<lambda>s4.
     Inr (emit Signal_RenderEnd (StopCalculatingStats (emit Graphics_Present s4)))) = Inr s'"
    by (erule andThen_InrE)
  have p3: "passStep s s3 (?sh @ [Enter P_GBuffer, Enter P_Deferred, Enter P_PostProcess,
                Graphics_Clear (cam_clearColor cam)])"
    using passStep_trans[OF pd PostProcessing_ret[OF s3 cd]] by simp
  then have c3: "m_camera s3 = Some cam" using cam by (simp add: passStep_def)
  from r3 obtain s4 where s4: "renderGizmos env s3 = Inr s4"
    and r4: "s' = emit Signal_RenderEnd (StopCalculatingStats (emit Graphics_Present s4))"
    by (auto elim: andThen_InrE)
  have p4: "passStep s s4 (?sh @ [Enter P_GBuffer, Enter P_Deferred, Enter P_PostProcess,
                Graphics_Clear (cam_clearColor cam)] @ ?dbg)"
    using passStep_trans[OF p3 renderGizmos_ret[OF s4 c3]] by simp
  have e: "passTrace (calls s') = passTrace (calls s4) @ [Graphics_Present]"
    using r4 by (simp add: emit_def StopCalculatingStats_def passTrace_def)
  have q4: "passTrace (calls s4) = passTrace (calls s) @ (?sh @ [Enter P_GBuffer, Enter P_Deferred,
       Enter P_PostProcess, Graphics_Clear (cam_clearColor cam)] @ ?dbg)"
    using p4 by (simp add: passStep_def)
  show ?thesis using e q4 by simp
qed


lemma Render_ret:
  assumes r: "Render env s = Inr s'"
  shows "case scene_GetMainCamera env of
        None \<Rightarrow>
          calls s' = calls s @ [Signal_RenderStart, Enter P_AcquirePrerequisites,
                                Graphics_Clear (Vector4 0 0 0 1), Graphics_Present]
      | Some camera \<Rightarrow>
          (case go_camera camera of
             None \<Rightarrow> False
           | Some cam \<Rightarrow>
               if m_renderables s = []
               then calls s' = calls s @ [Signal_RenderStart, Enter P_AcquirePrerequisites,
                                          Graphics_Clear (cam_clearColor cam), Graphics_Present]
               else passTrace (calls s') = passTrace (calls s)
                      @ [Enter P_AcquirePrerequisites]
                      @ (if shadowsDue s then [Enter P_ShadowDepth] else [])
                      @ [Enter P_GBuffer, Enter P_Deferred, Enter P_PostProcess,
                         Graphics_Clear (cam_clearColor cam)]
                      @ (if engineMode env = Editor_Idle then [Enter P_Debug] else [])
                      @ [Graphics_Present])"
proof (cases "scene_GetMainCamera env")
  case None
  let ?s0 = "StartCalculatingStats (emit Signal_RenderStart s)"
  have "calls ?s0 = calls s @ [Signal_RenderStart]"
    by (simp add: StartCalculatingStats_def emit_def)
  then show ?thesis
    using r None AcquirePrerequisites_no_camera[OF None, of ?s0]
    by (auto simp add: Render_def andThen_def emit_def)
next
  case (Some camera)
  let ?s0 = "StartCalculatingStats (emit Signal_RenderStart s)"
  have s0: "calls ?s0 = calls s @ [Signal_RenderStart]" "m_renderables ?s0 = m_renderables s"
    "m_lightsDirectional ?s0 = m_lightsDirectional s"
    by (simp_all add: StartCalculatingStats_def emit_def)
  show ?thesis
  proof (cases "go_camera camera")
    case None
    have "AcquirePrerequisites env ?s0 = Inl NullDereference"
      using Some None
      by (simp add: AcquirePrerequisites_def Let_def acquireCameraMatrices_def
          acquireDirectionalLight_def acquireSkybox_def split: option.splits)
    then show ?thesis using r by (simp add: Render_def andThen_def)
  next
    case cam: (Some cam)
    from AcquirePrerequisites_camera[OF Some cam, of ?s0] s0 obtain s1 where
      s1: "AcquirePrerequisites env ?s0 = Inr s1" "m_camera s1 = Some cam"
        "m_renderables s1 = m_renderables s"
        "m_directionalLight s1 = (case m_lightsDirectional s of [] \<Rightarrow> None | g # gs \<Rightarrow> go_light g)"
        "calls s1 = calls s @ [Signal_RenderStart, Enter P_AcquirePrerequisites]"
      by auto
    show ?thesis
    proof (cases "m_renderables s = []")
      case True
      then show ?thesis using r Some cam s1
        by (auto simp add: Render_def andThen_def emit_def)
    next
      case False
      have sd: "(case m_directionalLight s1 of None \<Rightarrow> False
               | Some light \<Rightarrow> sl_shadowType light \<noteq> No_Shadows) = shadowsDue s"
        using s1(4) by (simp add: shadowsDue_def split: list.splits)
      have pt: "passTrace (calls s1) = passTrace (calls s) @ [Enter P_AcquirePrerequisites]"
        using s1(5) by (simp add: passTrace_def)
      have "renderFrame env cam s1 = Inr s'"
        using r s1(1,2,3) False by (simp add: Render_def andThen_def)
      from renderFrame_ret[OF this s1(2)] show ?thesis
        using Some cam False sd pt by simp
    qed
  qed
qed

text \<open>
  Claim C1: in every frame, if \<^verbatim>\<open>Render\<close> returns, its calls are in this order. Without a
  main camera: acquire prerequisites, clear to opaque black, present, and nothing else.
  With a camera and an empty renderable list: acquire prerequisites, clear to the camera's
  clear colour, present, and nothing else. Otherwise, at the level of passes: acquire
  prerequisites; the shadow-depth pass exactly when the first directional light has a light
  component whose shadow type is not \<^verbatim>\<open>No_Shadows\<close>; the geometry-buffer pass; the
  deferred pass; the post-process pass (which clears the back buffer to the camera's clear
  colour); the debug pass exactly when the engine mode is \<^verbatim>\<open>Editor_Idle\<close>; present. And
  \<^verbatim>\<open>Render\<close> does return in every frame whose inputs dereference no null pointer (the
  main camera object has a camera component, every renderable a mesh filter and a mesh
  renderer).
\<close>

theorem Render_pass_order:
  "(frameWellFormed env s \<longrightarrow> (\<exists>s'. Render env s = Inr s'))
   \<and> (\<forall>s'. Render env s = Inr s' \<longrightarrow>
     (case scene_GetMainCamera env of
        None \<Rightarrow>
          calls s' = calls s @ [Signal_RenderStart, Enter P_AcquirePrerequisites,
                                Graphics_Clear (Vector4 0 0 0 1), Graphics_Present]
      | Some camera \<Rightarrow>
          (case go_camera camera of
             None \<Rightarrow> False
           | Some cam \<Rightarrow>
               if m_renderables s = []
               then calls s' = calls s @ [Signal_RenderStart, Enter P_AcquirePrerequisites,
                                          Graphics_Clear (cam_clearColor cam), Graphics_Present]
               else passTrace (calls s') = passTrace (calls s)
                      @ [Enter P_AcquirePrerequisites]
                      @ (if shadowsDue s then [Enter P_ShadowDepth] else [])
                      @ [Enter P_GBuffer, Enter P_Deferred, Enter P_PostProcess,
                         Graphics_Clear (cam_clearColor cam)]
                      @ (if engineMode env = Editor_Idle then [Enter P_Debug] else [])
                      @ [Graphics_Present])))"
proof (intro conjI impI allI)
  assume "frameWellFormed env s"
  from Render_returns[OF this] show "\<exists>s'. Render env s = Inr s'" by blast
next
  fix s'
  assume "Render env s = Inr s'"
  then show "case scene_GetMainCamera env of
        None \<Rightarrow>
          calls s' = calls s @ [Signal_RenderStart, Enter P_AcquirePrerequisites,
                                Graphics_Clear (Vector4 0 0 0 1), Graphics_Present]
      | Some camera \<Rightarrow>
          (case go_camera camera of
             None \<Rightarrow> False
           | Some cam \<Rightarrow>
               if m_renderables s = []
               then calls s' = calls s @ [Signal_RenderStart, Enter P_AcquirePrerequisites,
                                          Graphics_Clear (cam_clearColor cam), Graphics_Present]
               else passTrace (calls s') = passTrace (calls s)
                      @ [Enter P_AcquirePrerequisites]
                      @ (if shadowsDue s then [Enter P_ShadowDepth] else [])
                      @ [Enter P_GBuffer, Enter P_Deferred, Enter P_PostProcess,
                         Graphics_Clear (cam_clearColor cam)]
                      @ (if engineMode env = Editor_Idle then [Enter P_Debug] else [])
                      @ [Graphics_Present])"
    by (rule Render_ret)
qed

theorem Render_pass_order_witness:
  "frameWellFormed editorEnv cubeScene
   \<and> (\<exists>s'. Render editorEnv cubeScene = Inr s'
        \<and> passTrace (calls s') =
            [Enter P_AcquirePrerequisites, Enter P_ShadowDepth, Enter P_GBuffer, Enter P_Deferred,
             Enter P_PostProcess, Graphics_Clear (Vector4 (1 / 4) (1 / 2) (3 / 4) 1),
             Enter P_Debug, Graphics_Present])"
proof -
  have wf: "frameWellFormed editorEnv cubeScene"
    by (simp add: frameWellFormed_def editorEnv_def cameraObject_def cubeScene_def Update_def
        Clear_def hasRenderComponents_def cubeObject_def emptyObject_def)
  have f: "scene_GetMainCamera editorEnv = Some cameraObject"
    "go_camera cameraObject = Some sceneCamera" "m_renderables cubeScene \<noteq> []"
    "shadowsDue cubeScene" "engineMode editorEnv = Editor_Idle" "calls cubeScene = []"
    "cam_clearColor sceneCamera = Vector4 (1 / 4) (1 / 2) (3 / 4) 1"
    by (simp_all add: editorEnv_def cameraObject_def cubeScene_def Update_def Clear_def
        shadowsDue_def sunObject_def sunLight_def emptyObject_def Renderer_new_def sceneCamera_def)
  note t = Render_pass_order[of editorEnv cubeScene]
  from t wf obtain s' where s': "Render editorEnv cubeScene = Inr s'" by blast
  with t have "case scene_GetMainCamera editorEnv of
        None \<Rightarrow>
          calls s' = calls cubeScene @ [Signal_RenderStart, Enter P_AcquirePrerequisites,
                                Graphics_Clear (Vector4 0 0 0 1), Graphics_Present]
      | Some camera \<Rightarrow>
          (case go_camera camera of
             None \<Rightarrow> False
           | Some cam \<Rightarrow>
               if m_renderables cubeScene = []
               then calls s' = calls cubeScene @ [Signal_RenderStart, Enter P_AcquirePrerequisites,
                                          Graphics_Clear (cam_clearColor cam), Graphics_Present]
               else passTrace (calls s') = passTrace (calls cubeScene)
                      @ [Enter P_AcquirePrerequisites]
                      @ (if shadowsDue cubeScene then [Enter P_ShadowDepth] else [])
                      @ [Enter P_GBuffer, Enter P_Deferred, Enter P_PostProcess,
                         Graphics_Clear (cam_clearColor cam)]
                      @ (if engineMode editorEnv = Editor_Idle then [Enter P_Debug] else [])
                      @ [Graphics_Present])"
    by blast
  then have "passTrace (calls s') =
            [Enter P_AcquirePrerequisites, Enter P_ShadowDepth, Enter P_GBuffer, Enter P_Deferred,
             Enter P_PostProcess, Graphics_Clear (Vector4 (1 / 4) (1 / 2) (3 / 4) 1),
             Enter P_Debug, Graphics_Present]"
    using f by (simp add: passTrace_def)
  with wf s' show ?thesis by blast
qed

subsection \<open>Objects without mesh or material\<close>

lemma andThen_Inr: "andThen (Inr a) f = f a"
  by (simp add: andThen_def)

lemma depthObjects_append:
  "depthObjects i (xs @ ys) s = andThen (depthObjects i xs s) (depthObjects i ys)"
  by (induction xs arbitrary: s) (simp_all add: andThen_def split: sum.splits)

lemma gbufferObjects_append:
  "gbufferObjects env sh cm (xs @ ys) s =
     andThen (gbufferObjects env sh cm xs s) (gbufferObjects env sh cm ys)"
  by (induction xs arbitrary: s) (simp_all add: andThen_def split: sum.splits)

lemma depthObjects_skip:
  assumes "\<And>t. depthObject i g t = Inr t"
  shows "depthObjects i (xs @ g # ys) s = depthObjects i (xs @ ys) s"
proof -
  have "depthObjects i (g # ys) = depthObjects i ys"
    by (rule ext) (simp add: assms andThen_Inr)
  then show ?thesis by (simp only: depthObjects_append)
qed

lemma gbufferObjects_skip:
  assumes "\<And>t. gbufferObject env sh cm g t = Inr t"
  shows "gbufferObjects env sh cm (xs @ g # ys) s = gbufferObjects env sh cm (xs @ ys) s"
proof -
  have "gbufferObjects env sh cm (g # ys) = gbufferObjects env sh cm ys"
    by (rule ext) (simp add: assms andThen_Inr)
  then show ?thesis by (simp only: gbufferObjects_append)
qed

lemma withRenderables_twice: "withRenderables r (withRenderables r' s) = withRenderables r s"
  by (simp add: withRenderables_def)

lemma m_renderables_withRenderables: "m_renderables (withRenderables r s) = r"
  by (simp add: withRenderables_def)

lemma withRenderables_same: "m_renderables s = r \<Longrightarrow> withRenderables r s = s"
  by (simp add: withRenderables_def)

lemma emit_withRenderables: "emit e (withRenderables r s) = withRenderables r (emit e s)"
  by (simp add: emit_def withRenderables_def)

lemma depthObject_withRenderables:
  "depthObject i g (withRenderables r s) = map_sum id (withRenderables r) (depthObject i g s)"
  by (simp add: depthObject_def Let_def emit_withRenderables split: option.splits)

lemma depthObjects_withRenderables:
  "depthObjects i gs (withRenderables r s) = map_sum id (withRenderables r) (depthObjects i gs s)"
proof (induction gs arbitrary: s)
  case Nil
  show ?case by simp
next
  case (Cons g gs)
  show ?case
  proof (cases "depthObject i g s")
    case (Inl e)
    then show ?thesis by (simp add: depthObject_withRenderables andThen_def)
  next
    case (Inr t)
    then show ?thesis by (simp add: depthObject_withRenderables andThen_def Cons.IH)
  qed
qed

lemma depthCascades_skip:
  assumes skip: "\<And>j t. depthObject j g t = Inr t"
  shows "depthCascades i k (withRenderables (xs @ g # ys) s) =
           map_sum id (withRenderables (xs @ g # ys)) (depthCascades i k (withRenderables (xs @ ys) s))"
proof (induction k arbitrary: i s)
  case 0
  show ?case by (simp add: withRenderables_twice)
next
  case (Suc k)
  let ?R1 = "xs @ g # ys" and ?R2 = "xs @ ys"
  let ?e = "Light_SetShadowMapAsRenderTarget i"
  have sk: "depthObjects i ?R1 t = depthObjects i ?R2 t" for t
    by (rule depthObjects_skip) (rule skip)
  have l: "depthCascades i (Suc k) (withRenderables ?R1 s) =
        andThen (map_sum id (withRenderables ?R1) (depthObjects i ?R2 (emit ?e s)))
          (depthCascades (Suc i) k)"
    by (simp only: depthCascades.simps m_renderables_withRenderables emit_withRenderables sk
        depthObjects_withRenderables)
  have r: "depthCascades i (Suc k) (withRenderables ?R2 s) =
        andThen (map_sum id (withRenderables ?R2) (depthObjects i ?R2 (emit ?e s)))
          (depthCascades (Suc i) k)"
    by (simp only: depthCascades.simps m_renderables_withRenderables emit_withRenderables
        depthObjects_withRenderables)
  show ?case
  proof (cases "depthObjects i ?R2 (emit ?e s)")
    case (Inl e)
    then show ?thesis using l r by (simp add: andThen_def)
  next
    case (Inr t)
    then show ?thesis using l r Suc.IH[of "Suc i" t] by (simp add: andThen_def)
  qed
qed

lemma DirectionalLightDepthPass_skip:
  assumes skip: "\<And>j t. depthObject j g t = Inr t"
  shows "DirectionalLightDepthPass (withRenderables (xs @ g # ys) s) =
           map_sum id (withRenderables (xs @ g # ys))
             (DirectionalLightDepthPass (withRenderables (xs @ ys) s))"
proof -
  let ?s1 = "emit (Graphics_SetCullMode CullFront) (emit (Enter P_ShadowDepth) s)"
  have d: "m_directionalLight (withRenderables r ?s1) = m_directionalLight s" for r
    by (simp add: withRenderables_def emit_def)
  show ?thesis
  proof (cases "m_directionalLight s")
    case None
    then show ?thesis
      by (simp add: DirectionalLightDepthPass_def Let_def emit_withRenderables d)
  next
    case (Some light)
    then show ?thesis
      using depthCascades_skip[OF skip, of 0 "sl_cascadeCount light" xs ys ?s1]
      by (simp add: DirectionalLightDepthPass_def Let_def emit_withRenderables d)
  qed
qed

lemma IsInViewFrustrum_withRenderables:
  "IsInViewFrustrum env c e (withRenderables r s) =
     map_prod id (withRenderables r) (IsInViewFrustrum env c e s)"
  by (simp add: IsInViewFrustrum_def Let_def withRenderables_def emit_def)

lemma gbufferDraw_withRenderables:
  "gbufferDraw sh cm g mf mesh mr mat (withRenderables r s) =
     withRenderables r (gbufferDraw sh cm g mf mesh mr mat s)"
  by (simp add: gbufferDraw_def Let_def withRenderables_def emit_def)

lemma gbufferObject_withRenderables:
  "gbufferObject env sh cm g (withRenderables r s) =
     map_sum id (withRenderables r) (gbufferObject env sh cm g s)"
  by (auto simp: gbufferObject_def IsInViewFrustrum_withRenderables gbufferDraw_withRenderables
      split: option.splits bool.splits prod.splits)

lemma gbufferObjects_withRenderables:
  "gbufferObjects env sh cm gs (withRenderables r s) =
     map_sum id (withRenderables r) (gbufferObjects env sh cm gs s)"
proof (induction gs arbitrary: s)
  case Nil
  show ?case by simp
next
  case (Cons g gs)
  show ?case
  proof (cases "gbufferObject env sh cm g s")
    case (Inl e)
    then show ?thesis by (simp add: gbufferObject_withRenderables andThen_def)
  next
    case (Inr t)
    then show ?thesis by (simp add: gbufferObject_withRenderables andThen_def Cons.IH)
  qed
qed

lemma gbufferMaterial_skip:
  assumes skip: "\<And>t. gbufferObject env sh cm g t = Inr t"
  shows "gbufferMaterial env sh cm (withRenderables (xs @ g # ys) s) =
           map_sum id (withRenderables (xs @ g # ys))
             (gbufferMaterial env sh cm (withRenderables (xs @ ys) s))"
proof (cases "mat_shaderID cm \<noteq> sh")
  case True
  then show ?thesis by (simp add: gbufferMaterial_def withRenderables_twice)
next
  case False
  let ?R1 = "xs @ g # ys" and ?R2 = "xs @ ys"
  let ?s1 = "s\<lparr> m_textures := m_textures s @ materialTextures cm
                                    @ lightTextures (m_directionalLight s) \<rparr>"
  let ?s2 = "emit (Shader_SetResources sh (m_textures ?s1)) ?s1"
  have sk: "gbufferObjects env sh cm ?R1 t = gbufferObjects env sh cm ?R2 t" for t
    by (rule gbufferObjects_skip) (rule skip)
  have st: "emit (Shader_SetResources sh (m_textures
               ((withRenderables r s)\<lparr> m_textures := m_textures (withRenderables r s)
                  @ materialTextures cm @ lightTextures (m_directionalLight (withRenderables r s)) \<rparr>)))
             ((withRenderables r s)\<lparr> m_textures := m_textures (withRenderables r s)
                  @ materialTextures cm @ lightTextures (m_directionalLight (withRenderables r s)) \<rparr>)
           = withRenderables r ?s2" for r
    by (simp add: withRenderables_def emit_def)
  have g: "gbufferMaterial env sh cm (withRenderables r s) =
             andThen (gbufferObjects env sh cm r (withRenderables r ?s2))
               (\<lambda>s3. Inr (s3\<lparr> m_textures := [] \<rparr>))" for r
    using False
    by (simp only: gbufferMaterial_def Let_def st m_renderables_withRenderables if_False)
  have t: "(withRenderables r u)\<lparr> m_textures := [] \<rparr> = withRenderables r (u\<lparr> m_textures := [] \<rparr>)" for r u
    by (simp add: withRenderables_def)
  show ?thesis
    by (cases "gbufferObjects env sh cm ?R2 ?s2")
      (simp_all add: g sk gbufferObjects_withRenderables andThen_def t withRenderables_twice)
qed

lemma gbufferMaterials_skip:
  assumes skip: "\<And>cm t. gbufferObject env sh cm g t = Inr t"
  shows "gbufferMaterials env sh ms (withRenderables (xs @ g # ys) s) =
           map_sum id (withRenderables (xs @ g # ys))
             (gbufferMaterials env sh ms (withRenderables (xs @ ys) s))"
proof (induction ms arbitrary: s)
  case Nil
  show ?case by (simp add: withRenderables_twice)
next
  case (Cons m ms)
  note k = gbufferMaterial_skip[OF skip, of m xs ys s]
  show ?case
  proof (cases "gbufferMaterial env sh m (withRenderables (xs @ ys) s)")
    case (Inl e)
    then show ?thesis using k by (simp add: andThen_def)
  next
    case (Inr t)
    from gbufferMaterial_ret[OF Inr] have "withRenderables (xs @ ys) t = t"
      by (simp add: passStep_def m_renderables_withRenderables withRenderables_same)
    then show ?thesis using Inr k Cons.IH[of t] by (simp add: andThen_def)
  qed
qed

lemma gbufferShaders_skip:
  assumes skip: "\<And>sh cm t. gbufferObject env sh cm g t = Inr t"
  shows "gbufferShaders env shs (withRenderables (xs @ g # ys) s) =
           map_sum id (withRenderables (xs @ g # ys))
             (gbufferShaders env shs (withRenderables (xs @ ys) s))"
proof (induction shs arbitrary: s)
  case Nil
  show ?case by (simp add: withRenderables_twice)
next
  case (Cons sh shs)
  let ?ms = "materialPool_GetAllMaterials env"
  note k = gbufferMaterials_skip[OF skip, of sh ?ms xs ys "emit (Shader_Set sh) s"]
  show ?case
  proof (cases "gbufferMaterials env sh ?ms (withRenderables (xs @ ys) (emit (Shader_Set sh) s))")
    case (Inl e)
    then show ?thesis using k by (simp add: andThen_def emit_withRenderables)
  next
    case (Inr t)
    from gbufferMaterials_ret[OF Inr] have "withRenderables (xs @ ys) t = t"
      by (simp add: passStep_def m_renderables_withRenderables withRenderables_same)
    then show ?thesis using Inr k Cons.IH[of t] by (simp add: andThen_def emit_withRenderables)
  qed
qed

lemma GBufferPass_skip:
  assumes skip: "\<And>sh cm t. gbufferObject env sh cm g t = Inr t"
  shows "GBufferPass env (withRenderables (xs @ g # ys) s) =
           map_sum id (withRenderables (xs @ g # ys))
             (GBufferPass env (withRenderables (xs @ ys) s))"
  using gbufferShaders_skip[OF skip, of "shaderPool_GetAllShaders env" xs ys "emit (Enter P_GBuffer) s"]
  by (simp add: GBufferPass_def emit_withRenderables)

text \<open>
  Claim C4, as stated, fails for the shadow-depth pass and a missing material: the pass
  never looks at the material. Over a renderable list holding one cube whose mesh renderer
  has no material, the pass issues the depth draw of the cube's 36 indices.
\<close>

theorem shadow_pass_draws_without_material_counterexample:
  "go_meshRenderer noMaterialObject =
     Some \<lparr> mr_material = None, mr_castShadows = True, mr_receiveShadows = True \<rparr>
   \<and> m_renderables noMaterialScene = [noMaterialObject]
   \<and> map_sum id calls (DirectionalLightDepthPass noMaterialScene) =
       Inr [Enter P_ShadowDepth, Graphics_SetCullMode CullFront,
            Light_SetShadowMapAsRenderTarget 0, DepthShader_Render 36 Matrix_Identity 0]"
  by (simp add: noMaterialObject_def noMaterialScene_def emptyObject_def Update_def Clear_def
      Renderer_new_def DirectionalLightDepthPass_def emit_def sunLight_def depthObject_def
      cubeFilter_def andThen_def Let_def)

text \<open>
  Claim C4, amended: take any object that has a mesh filter and a mesh renderer component,
  at any place in the renderable list. If its mesh is missing, the shadow-depth pass and the
  geometry-buffer pass over the list each give the result they give over the list without
  the object: the same calls in the same order, the same error if there is one, and the same
  final state but for the list itself. If its material is missing, the same holds for the
  geometry-buffer pass.
\<close>

theorem incomplete_objects_are_skipped:
  assumes mf: "go_meshFilter g = Some mf" and mr: "go_meshRenderer g = Some mr"
  shows "(mf_mesh mf = None \<longrightarrow>
            DirectionalLightDepthPass (withRenderables (xs @ g # ys) s) =
              map_sum id (withRenderables (xs @ g # ys))
                (DirectionalLightDepthPass (withRenderables (xs @ ys) s))
            \<and> GBufferPass env (withRenderables (xs @ g # ys) s) =
              map_sum id (withRenderables (xs @ g # ys))
                (GBufferPass env (withRenderables (xs @ ys) s)))
       \<and> (mr_material mr = None \<longrightarrow>
            GBufferPass env (withRenderables (xs @ g # ys) s) =
              map_sum id (withRenderables (xs @ g # ys))
                (GBufferPass env (withRenderables (xs @ ys) s)))"
proof (intro conjI impI)
  assume m: "mf_mesh mf = None"
  have d: "depthObject j g t = Inr t" for j t
    using mf m by (simp add: depthObject_def Let_def)
  have b: "gbufferObject env sh cm g t = Inr t" for sh cm t
    using mf mr m by (simp add: gbufferObject_def)
  show "DirectionalLightDepthPass (withRenderables (xs @ g # ys) s) =
              map_sum id (withRenderables (xs @ g # ys))
                (DirectionalLightDepthPass (withRenderables (xs @ ys) s))"
    using d by (rule DirectionalLightDepthPass_skip)
  show "GBufferPass env (withRenderables (xs @ g # ys) s) =
              map_sum id (withRenderables (xs @ g # ys))
                (GBufferPass env (withRenderables (xs @ ys) s))"
    using b by (rule GBufferPass_skip)
next
  assume m: "mr_material mr = None"
  have b: "gbufferObject env sh cm g t = Inr t" for sh cm t
    using mf mr m by (simp add: gbufferObject_def split: option.splits)
  show "GBufferPass env (withRenderables (xs @ g # ys) s) =
              map_sum id (withRenderables (xs @ g # ys))
                (GBufferPass env (withRenderables (xs @ ys) s))"
    using b by (rule GBufferPass_skip)
qed

theorem incomplete_objects_are_skipped_witness:
  "go_meshFilter noMeshObject = Some (cubeFilter\<lparr> mf_mesh := None \<rparr>)
   \<and> go_meshRenderer noMeshObject =
        Some \<lparr> mr_material = None, mr_castShadows = True, mr_receiveShadows = True \<rparr>
   \<and> DirectionalLightDepthPass (withRenderables [cubeObject, noMeshObject, cubeObject] noMaterialScene)
       = map_sum id (withRenderables [cubeObject, noMeshObject, cubeObject])
           (DirectionalLightDepthPass (withRenderables [cubeObject, cubeObject] noMaterialScene))
   \<and> GBufferPass editorEnv (withRenderables [cubeObject, noMeshObject, cubeObject] noMaterialScene)
       = map_sum id (withRenderables [cubeObject, noMeshObject, cubeObject])
           (GBufferPass editorEnv (withRenderables [cubeObject, cubeObject] noMaterialScene))"
proof -
  have h: "go_meshFilter noMeshObject = Some (cubeFilter\<lparr> mf_mesh := None \<rparr>)"
    "go_meshRenderer noMeshObject =
        Some \<lparr> mr_material = None, mr_castShadows = True, mr_receiveShadows = True \<rparr>"
    by (simp_all add: noMeshObject_def emptyObject_def)
  have m: "mf_mesh (cubeFilter\<lparr> mf_mesh := None \<rparr>) = None" by simp
  show ?thesis
    using h m incomplete_objects_are_skipped[OF h, of "[cubeObject]" "[cubeObject]" noMaterialScene editorEnv]
    by simp
qed

subsection \<open>Mesh count after a frame without camera\<close>

text \<open>
  Claim C6 against the code: a frame that draws one mesh, followed by a frame in which the
  scene has no main camera. After the second \<^verbatim>\<open>Render\<close>, which takes the early return,
  \<^verbatim>\<open>GetRenderedMeshesCount\<close> gives 1, the count of the frame before, and not 0: the
  early return leaves \<^verbatim>\<open>Render\<close> before \<^verbatim>\<open>StopCalculatingStats\<close> publishes the counter
  that \<^verbatim>\<open>StartCalculatingStats\<close> has reset.
\<close>

theorem soft_fail_frame_keeps_previous_mesh_count:
  "andThen (Render editorEnv cubeScene) (\<lambda>s1.
     andThen (Render noCameraEnv s1) (\<lambda>s2. Inr (GetRenderedMeshesCount s2))) = Inr 1"
  by (simp add: Render_def andThen_def editorEnv_def noCameraEnv_def cubeScene_def Update_def
      Clear_def Renderer_new_def emit_def StartCalculatingStats_def StopCalculatingStats_def
      AcquirePrerequisites_def acquireSkybox_def acquireDirectionalLight_def
      acquireCameraMatrices_def cameraObject_def sceneCamera_def emptyObject_def sunObject_def
      sunLight_def cubeObject_def cubeFilter_def sceneMaterial_def renderFrame_def
      renderShadows_def DirectionalLightDepthPass_def depthObject_def GBufferPass_def
      gbufferMaterial_def gbufferObject_def gbufferDraw_def IsInViewFrustrum_def
      materialTextures_def lightTextures_def DeferredPass_def Ping_def Pong_def
      clearColorOf_def PostProcessing_def renderGizmos_def Gizmos_def
      GetRenderedMeshesCount_def newTarget_def Let_def)

subsection \<open>View-frustum test\<close>

text \<open>
  Claim C7: for every bounding centre and extents, \<^verbatim>\<open>IsInViewFrustrum\<close> returns true
  exactly when the frustum's sphere test, on the sphere around the centre with radius
  max(|extent.x|, |extent.y|, |extent.z|) and the planes held after the call, does not
  answer \<^verbatim>\<open>Outside\<close>. The planes are constructed again (one \<^verbatim>\<open>ConstructFrustum\<close> call,
  from the renderer's current view and projection matrices and far plane) when the
  frustum's stored projection or view matrix differs from the current one, and otherwise
  the call leaves the renderer as it was.
\<close>

theorem IsInViewFrustrum_sphere_and_lazy_planes:
  "fst (IsInViewFrustrum env center extent s) =
     (frustrum_CheckSphere env (fr_planes (m_frustrum (snd (IsInViewFrustrum env center extent s))))
        center (max (max \<bar>v_x extent\<bar> \<bar>v_y extent\<bar>) \<bar>v_z extent\<bar>) \<noteq> Outside)
   \<and> snd (IsInViewFrustrum env center extent s) =
       (if fr_projection (m_frustrum s) \<noteq> mProjection s \<or> fr_view (m_frustrum s) \<noteq> mView s
        then emit (Frustrum_ConstructFrustum (m_farPlane s))
               (s\<lparr> m_frustrum := \<lparr> fr_projection = mProjection s, fr_view = mView s,
                      fr_planes = PlanesOf (mView s) (mProjection s) (m_farPlane s) \<rparr> \<rparr>)
        else s)
   \<and> calls (snd (IsInViewFrustrum env center extent s)) =
       calls s @
       (if fr_projection (m_frustrum s) \<noteq> mProjection s \<or> fr_view (m_frustrum s) \<noteq> mView s
        then [Frustrum_ConstructFrustum (m_farPlane s)] else [])"
  by (simp add: IsInViewFrustrum_def Let_def emit_def)

theorem IsInViewFrustrum_sphere_and_lazy_planes_witness:
  "fst (IsInViewFrustrum farPlaneEnv (Vector3 0 0 500) (Vector3 1 (- 2) 1) staleFrustrumScene)
     = False
   \<and> calls (snd (IsInViewFrustrum farPlaneEnv (Vector3 0 0 500) (Vector3 1 (- 2) 1)
                   staleFrustrumScene))
       = [Frustrum_ConstructFrustum 100]
   \<and> fst (IsInViewFrustrum farPlaneEnv (Vector3 0 0 50) (Vector3 1 (- 2) 1) staleFrustrumScene)
       = True"
  using IsInViewFrustrum_sphere_and_lazy_planes[of farPlaneEnv "Vector3 0 0 500"
      "Vector3 1 (- 2) 1" staleFrustrumScene]
    IsInViewFrustrum_sphere_and_lazy_planes[of farPlaneEnv "Vector3 0 0 50"
      "Vector3 1 (- 2) 1" staleFrustrumScene]
  by (simp add: farPlaneEnv_def staleFrustrumScene_def cubeScene_def Update_def Clear_def
      Renderer_new_def emit_def)

subsection \<open>Resolution guard\<close>

text \<open>
  Claim C9: for every height and width, \<^verbatim>\<open>SetResolution(0, height)\<close> and
  \<^verbatim>\<open>SetResolution(width, 0)\<close> return the renderer exactly as it was: the stored
  resolution, the geometry buffer, the full-screen quad, both ping-pong textures and
  every other member are unchanged, and no call is made.
\<close>

theorem SetResolution_zero_is_noop:
  "SetResolution 0 height s = s \<and> SetResolution width 0 s = s"
  by (simp add: SetResolution_def)


end
